theory Spec2Isabelle
  imports Complex_Main "HOL-Library.Sublist"
begin

section \<open>JavaScript strings\<close>

text \<open>
  A JavaScript string is a sequence of UTF-16 code units, and \<open>length\<close>, \<open>trim\<close>,
  \<open>includes\<close> and the regular expressions of the handlers work on code units. A string is
  modelled as a \<^typ>\<open>string\<close> with one \<^typ>\<open>char\<close> per code unit, which covers the code
  units 0 to 255 (ASCII and the Latin-1 supplement); the functions below are the
  ECMAScript ones on that range.
\<close>

definition isWhiteSpace :: "char \<Rightarrow> bool" where
  \<comment> \<open>WhiteSpace and LineTerminator: TAB, LF, VT, FF, CR, SP, NBSP. It is the set that
      \<open>trim\<close> strips and that \<open>\s\<close> matches.\<close>
  "isWhiteSpace c = (of_char c \<in> {9, 10, 11, 12, 13, 32, 160 :: nat})"

definition isDigit :: "char \<Rightarrow> bool" where
  \<comment> \<open>\<open>\d\<close> without the \<open>u\<close> flag: 0 to 9\<close>
  "isDigit c = (48 \<le> (of_char c :: nat) \<and> (of_char c :: nat) \<le> 57)"

definition toLowerCase_char :: "char \<Rightarrow> char" where
  \<comment> \<open>A to Z, and the capitals of the Latin-1 supplement (all but the multiplication sign)\<close>
  "toLowerCase_char c =
     (let n = of_char c :: nat
      in if (65 \<le> n \<and> n \<le> 90) \<or> (192 \<le> n \<and> n \<le> 222 \<and> n \<noteq> 215)
         then char_of (n + 32) else c)"

definition toLowerCase :: "string \<Rightarrow> string" where
  "toLowerCase s = map toLowerCase_char s"

definition trim :: "string \<Rightarrow> string" where
  "trim s = rev (dropWhile isWhiteSpace (rev (dropWhile isWhiteSpace s)))"

definition str_includes :: "string \<Rightarrow> string \<Rightarrow> bool" where
  \<comment> \<open>\<open>s.includes(t)\<close>\<close>
  "str_includes s t = sublist t s"

fun join :: "string \<Rightarrow> string list \<Rightarrow> string" where
  "join sep [] = []"
| "join sep [x] = x"
| "join sep (x # y # ys) = x @ sep @ join sep (y # ys)"

section \<open>Regular expressions\<close>

text \<open>
  The handlers use regular expressions built from literal words, the classes \<open>\d\<close>,
  \<open>\s\<close> and \<open>[\d,]\<close> under \<open>+\<close> and \<open>*\<close>, sequence and alternation, and only through
  \<open>test\<close> and \<open>split\<close>. \<open>run\<close> is the backtracking matcher: the list of the inputs that
  remain after each way of matching the expression at the start of the input, in the order
  in which the engine tries them. The boolean argument is the \<open>i\<close> flag.
\<close>

datatype atom = Ch char | Digit | Space

datatype regex =
    Lit string
  | Words "string list"
  | Plus "atom list"
  | Star "atom list"
  | Seq regex regex
  | Alt regex regex

definition canonicalize :: "char \<Rightarrow> nat" where
  \<comment> \<open>Canonicalize of the \<open>i\<close> flag (no \<open>u\<close> flag): the code unit of \<open>toUpperCase\<close> when that
      is a single code unit. y-diaeresis and the micro sign leave Latin-1; sharp s has a
      two-letter upper case and stays.\<close>
  "canonicalize c =
     (let n = of_char c :: nat
      in if (97 \<le> n \<and> n \<le> 122) \<or> (224 \<le> n \<and> n \<le> 254 \<and> n \<noteq> 247) then n - 32
         else if n = 255 then 376
         else if n = 181 then 924
         else n)"

definition char_eq :: "bool \<Rightarrow> char \<Rightarrow> char \<Rightarrow> bool" where
  "char_eq ignoreCase p c = (if ignoreCase then canonicalize p = canonicalize c else p = c)"

fun atom_matches :: "bool \<Rightarrow> atom \<Rightarrow> char \<Rightarrow> bool" where
  "atom_matches ignoreCase (Ch p) c = char_eq ignoreCase p c"
| "atom_matches ignoreCase Digit c = isDigit c"
| "atom_matches ignoreCase Space c = isWhiteSpace c"

definition class_matches :: "bool \<Rightarrow> atom list \<Rightarrow> char \<Rightarrow> bool" where
  "class_matches ignoreCase as c = list_ex (\<lambda>a. atom_matches ignoreCase a c) as"

fun match_lit :: "bool \<Rightarrow> string \<Rightarrow> string \<Rightarrow> string option" where
  "match_lit ignoreCase [] s = Some s"
| "match_lit ignoreCase (p # ps) [] = None"
| "match_lit ignoreCase (p # ps) (c # cs) =
     (if char_eq ignoreCase p c then match_lit ignoreCase ps cs else None)"

fun many :: "(char \<Rightarrow> bool) \<Rightarrow> string \<Rightarrow> string list" where
  \<comment> \<open>a greedy \<open>*\<close> on a class: the longest run first, then one character less, ...\<close>
  "many P [] = [[]]"
| "many P (c # cs) = (if P c then many P cs @ [c # cs] else [c # cs])"

fun run :: "bool \<Rightarrow> regex \<Rightarrow> string \<Rightarrow> string list" where
  "run ignoreCase (Lit w) s = (case match_lit ignoreCase w s of None \<Rightarrow> [] | Some t \<Rightarrow> [t])"
| "run ignoreCase (Words ws) s = List.map_filter (\<lambda>w. match_lit ignoreCase w s) ws"
| "run ignoreCase (Plus as) s =
     (case s of [] \<Rightarrow> []
      | c # cs \<Rightarrow> if class_matches ignoreCase as c then many (class_matches ignoreCase as) cs else [])"
| "run ignoreCase (Star as) s = many (class_matches ignoreCase as) s"
| "run ignoreCase (Seq r1 r2) s = concat (map (run ignoreCase r2) (run ignoreCase r1 s))"
| "run ignoreCase (Alt r1 r2) s = run ignoreCase r1 s @ run ignoreCase r2 s"

fun test :: "bool \<Rightarrow> regex \<Rightarrow> string \<Rightarrow> bool" where
  \<comment> \<open>\<open>regex.test(s)\<close> on a regular expression whose \<open>lastIndex\<close> is 0: a match starting
      at index 0, 1, ..., \<open>s.length\<close>\<close>
  "test ignoreCase r [] = (run ignoreCase r [] \<noteq> [])"
| "test ignoreCase r (c # cs) = (run ignoreCase r (c # cs) \<noteq> [] \<or> test ignoreCase r cs)"

function split_ws_from :: "string \<Rightarrow> string \<Rightarrow> string list" where
  \<comment> \<open>\<open>s.split(/\s+/)\<close>: the first argument is the substring collected since the end of
      the last separator, reversed. A separator is a maximal run of white space; the
      substring before it is emitted also when it is empty, and so is the last one.\<close>
  "split_ws_from cur [] = [rev cur]"
| "split_ws_from cur (c # cs) =
     (if isWhiteSpace c then rev cur # split_ws_from [] (dropWhile isWhiteSpace cs)
      else split_ws_from (c # cur) cs)"
  by pat_completeness auto
termination
  by (relation "measure (\<lambda>(cur, s). length s)")
     (auto simp: less_Suc_eq_le length_dropWhile_le)

definition split_ws :: "string \<Rightarrow> string list" where
  "split_ws s = split_ws_from [] s"

section \<open>Responses\<close>

text \<open>
  \<open>Msg code success message\<close> is \<open>res.status(code).json({success, message})\<close>;
  \<open>Payload d\<close> is \<open>res.json({success: true, data: d})\<close>, sent with status 200;
  \<open>Denied\<close> is the refusal of the role gate in front of a handler.
\<close>

datatype 'd response = Msg nat bool string | Payload 'd | Denied

section \<open>Resume analysis: POST /analyze-resume\<close>

text \<open>
  The constants \<open>keywords\<close>, \<open>hasMetrics\<close>, \<open>foundKeywords\<close>, \<open>missingKeywords\<close>, \<open>tips\<close> and
  \<open>score\<close> of the handler are \<open>resume_keywords\<close> and the functions \<open>hasMetrics_in\<close>,
  \<open>foundKeywords_in\<close>, \<open>missingKeywords_in\<close>, \<open>tips_for\<close> and \<open>score_for\<close> of the text;
  \<open>tips_for\<close> follows the \<open>push\<close> calls one by one.
\<close>

definition resume_keywords :: "string list" where
  "resume_keywords =
     [''leadership'', ''managed'', ''developed'', ''implemented'', ''achieved'',
      ''increased'', ''reduced'', ''improved'', ''collaborated'', ''designed'',
      ''led'', ''created'', ''launched'', ''optimized'', ''scaled'']"

definition metricPatterns :: regex where
  \<comment> \<open>\<open>/\d+%|\$\d+|[\d,]+\s*(users|customers|revenue|growth|reduction|increase)/gi\<close>\<close>
  "metricPatterns =
     Alt (Seq (Plus [Digit]) (Lit ''%''))
       (Alt (Seq (Lit ''$'') (Plus [Digit]))
         (Seq (Plus [Digit, Ch CHR '',''])
           (Seq (Star [Space])
             (Words [''users'', ''customers'', ''revenue'', ''growth'', ''reduction'',
                     ''increase'']))))"

definition hasMetrics_in :: "string \<Rightarrow> bool" where
  \<comment> \<open>the expression is created by the request that tests it, so \<open>lastIndex\<close> is 0\<close>
  "hasMetrics_in resumeText = test True metricPatterns resumeText"

definition foundKeywords_in :: "string \<Rightarrow> string list" where
  "foundKeywords_in resumeText =
     filter (\<lambda>kw. str_includes (toLowerCase resumeText) kw) resume_keywords"

definition missingKeywords_in :: "string \<Rightarrow> string list" where
  "missingKeywords_in resumeText =
     filter (\<lambda>kw. \<not> str_includes (toLowerCase resumeText) kw) resume_keywords"

definition tip_metrics :: string where
  \<open>tip_metrics =
     ''Add quantifiable metrics (e.g., "increased sales by 35%" or "managed team of 8 engineers")''\<close>

definition tip_verbs :: "string list \<Rightarrow> string" where
  "tip_verbs missingKeywords =
     ''Include action verbs like: '' @ join '', '' (take 5 missingKeywords)"

definition tip_expand :: string where
  "tip_expand = ''Expand your experience with specific examples and results achieved''"

definition tip_projects :: string where
  "tip_projects = ''Highlight specific projects or initiatives you led or contributed to''"

definition generic_tips :: "string list" where
  "generic_tips =
     [''Strong foundation! Consider adding technical skills or certifications relevant to your target role'',
      ''Include links to portfolio, GitHub, or LinkedIn for additional context'',
      ''Tailor each bullet point to match keywords from the job description'']"

definition tips_for :: "string \<Rightarrow> string list" where
  "tips_for resumeText =
     (let lowerText = toLowerCase resumeText;
          tips0 = [];
          tips1 = (if \<not> hasMetrics_in resumeText then tips0 @ [tip_metrics] else tips0);
          tips2 = (if length (foundKeywords_in resumeText) < 3
                   then tips1 @ [tip_verbs (missingKeywords_in resumeText)] else tips1);
          tips3 = (if length resumeText < 150 then tips2 @ [tip_expand] else tips2);
          tips4 = (if \<not> str_includes lowerText ''project'' \<and> \<not> str_includes lowerText ''initiative''
                   then tips3 @ [tip_projects] else tips3)
      in if length tips4 = 0 then tips4 @ generic_tips else tips4)"

definition score_for :: "string \<Rightarrow> int" where
  "score_for resumeText =
     min 100
       (int (length (foundKeywords_in resumeText)) * 8
        + (if hasMetrics_in resumeText then 25 else 0)
        + (if length resumeText > 150 then 15 else 0)
        + 20)"

record resume_report =
  score :: int
  tips :: "string list"
  foundKeywords :: "string list"
  hasMetrics :: bool

definition analyze_resume :: "string option \<Rightarrow> resume_report response" where
  \<comment> \<open>the argument is \<open>req.body.resumeText\<close>; \<open>None\<close> is an absent field\<close>
  "analyze_resume body =
     (case body of
        None \<Rightarrow> Msg 400 False ''Please provide resume text (minimum 20 characters)''
      | Some resumeText \<Rightarrow>
          if resumeText = [] \<or> length (trim resumeText) < 20
          then Msg 400 False ''Please provide resume text (minimum 20 characters)''
          else Payload \<lparr> score = score_for resumeText,
                         tips = tips_for resumeText,
                         foundKeywords = take 5 (foundKeywords_in resumeText),
                         hasMetrics = hasMetrics_in resumeText \<rparr>)"

section \<open>Mock interview scoring\<close>

text \<open>
  The constants \<open>hasSituation\<close>, \<open>hasTask\<close>, \<open>hasAction\<close>, \<open>hasResult\<close>, \<open>wordCount\<close>,
  \<open>starScore\<close>, \<open>lengthScore\<close>, \<open>totalScore\<close> and \<open>feedback\<close> of the handler, as functions of
  the response.
\<close>

definition hasSituation_in :: "string \<Rightarrow> bool" where
  "hasSituation_in response = test True (Words [''situation'', ''context'', ''background'']) response"

definition hasTask_in :: "string \<Rightarrow> bool" where
  "hasTask_in response =
     test True (Words [''task'', ''goal'', ''objective'', ''challenge'']) response"

definition hasAction_in :: "string \<Rightarrow> bool" where
  "hasAction_in response =
     test True (Words [''action'', ''did'', ''implemented'', ''executed'', ''performed'']) response"

definition hasResult_in :: "string \<Rightarrow> bool" where
  "hasResult_in response =
     test True (Words [''result'', ''outcome'', ''impact'', ''achieved'', ''accomplished'']) response"

definition wordCount_of :: "string \<Rightarrow> nat" where
  \<comment> \<open>\<open>response.trim().split(/\s+/).length\<close>\<close>
  "wordCount_of response = length (split_ws (trim response))"

definition starScore_of :: "string \<Rightarrow> int" where
  "starScore_of response =
     (if hasSituation_in response then 25 else 0)
     + (if hasTask_in response then 25 else 0)
     + (if hasAction_in response then 25 else 0)
     + (if hasResult_in response then 25 else 0)"

definition lengthScore_of :: "string \<Rightarrow> int" where
  "lengthScore_of response = min 30 (int (wordCount_of response div 10) * 5)"

definition totalScore_of :: "string \<Rightarrow> int" where
  "totalScore_of response = min 100 (starScore_of response + lengthScore_of response + 10)"

definition feedback_for :: "string \<Rightarrow> string list" where
  "feedback_for response =
     (let f0 = [];
          f1 = (if \<not> hasSituation_in response
                then f0 @ [''Add context: Describe the situation or background''] else f0);
          f2 = (if \<not> hasTask_in response
                then f1 @ [''Clarify the task: What was your goal or challenge?''] else f1);
          f3 = (if \<not> hasAction_in response
                then f2 @ [''Detail your action: What specific steps did you take?''] else f2);
          f4 = (if \<not> hasResult_in response
                then f3 @ [''Share the result: What was the outcome or impact?''] else f3);
          f5 = (if wordCount_of response < 50
                then f4 @ [''Expand your response with more details and specific examples'']
                else f4)
      in if length f5 = 0
         then f5 @ [''Great STAR structure! Keep practicing to improve confidence and delivery'',
                    ''Consider varying your tone and pacing for better engagement'']
         else f5)"

section \<open>The store\<close>

text \<open>
  The tables of the schema that the modelled handlers read or write, with the columns
  they use. A table is the list of its rows in insertion order. The columns that the
  server fills in by itself from the clock (\<open>created_at\<close>, \<open>applied_at\<close>, \<open>updated_at\<close>)
  and the key of \<open>interview_practice\<close> are left out. \<open>applications_count\<close> is a signed
  \<open>INT DEFAULT 0\<close> that no statement of the repository sets to \<open>NULL\<close>; it is an
  \<^typ>\<open>int\<close> here, without the upper bound of the column type.
\<close>

datatype role = Job_seeker | Job_poster | Alumni | Student | Admin

record user_row =
  u_user_id :: nat
  u_name :: string
  u_email :: string

record profile_row =
  p_user_id :: nat
  p_resume :: "string option"

record job_row =
  j_job_id :: nat
  j_user_id :: nat
  j_title :: string
  j_company :: string
  applications_count :: int

record application_row =
  application_id :: nat
  a_job_id :: nat
  a_user_id :: nat
  a_resume :: "string option"
  a_cover_letter :: "string option"
  a_status :: string

record interview_row =
  ip_user_id :: nat
  ip_prompt :: string
  ip_response :: string
  ip_duration :: "int option"
  ip_score :: int

record store =
  users :: "user_row list"
  profiles :: "profile_row list"
  jobs :: "job_row list"
  applications :: "application_row list"
  next_application_id :: nat
  interview_practice :: "interview_row list"

text \<open>
  \<open>req.user\<close>, as the authentication middleware leaves it for the handler.
\<close>

record auth_user =
  userId :: nat
  role :: role

text \<open>
  Every \<open>db.query\<close> of a handler may throw (the connection is lost, the server refuses
  the statement), and the handler's \<open>catch\<close> turns that into a 500 reply. The statements
  of a handler are numbered from 0 in source order; a \<open>fault\<close> is the number of the
  statement that throws in this request, or \<open>None\<close> when the store answers all of them.
\<close>

type_synonym fault = "nat option"

definition throws :: "fault \<Rightarrow> nat \<Rightarrow> bool" where
  "throws f k = (f = Some k)"

definition user_exists :: "store \<Rightarrow> nat \<Rightarrow> bool" where
  "user_exists db uid = list_ex (\<lambda>u. u_user_id u = uid) (users db)"

definition job_exists :: "store \<Rightarrow> nat \<Rightarrow> bool" where
  "job_exists db jid = list_ex (\<lambda>j. j_job_id j = jid) (jobs db)"

definition insert_interview_practice :: "store \<Rightarrow> interview_row \<Rightarrow> store option" where
  \<comment> \<open>\<open>INSERT INTO interview_practice\<close>; the foreign key on \<open>user_id\<close> refuses a row
      of a user that does not exist\<close>
  "insert_interview_practice db row =
     (if user_exists db (ip_user_id row)
      then Some (db\<lparr>interview_practice := interview_practice db @ [row]\<rparr>)
      else None)"

definition insert_application ::
  "store \<Rightarrow> nat option \<Rightarrow> nat \<Rightarrow> string option \<Rightarrow> string option \<Rightarrow> store option" where
  \<comment> \<open>\<open>INSERT INTO applications (job_id, user_id, resume, cover_letter)\<close>: \<open>job_id\<close> is
      \<open>NOT NULL\<close>, both foreign keys must exist, \<open>(job_id, user_id)\<close> is a unique key; the
      key is the next \<open>AUTO_INCREMENT\<close> value and \<open>status\<close> takes its default\<close>
  "insert_application db job_id uid resume cover_letter =
     (case job_id of
        None \<Rightarrow> None
      | Some jid \<Rightarrow>
          if \<not> job_exists db jid \<or> \<not> user_exists db uid
             \<or> list_ex (\<lambda>a. a_job_id a = jid \<and> a_user_id a = uid) (applications db)
          then None
          else Some (db\<lparr>applications := applications db @
                           [\<lparr>application_id = next_application_id db, a_job_id = jid,
                             a_user_id = uid, a_resume = resume,
                             a_cover_letter = cover_letter, a_status = ''pending''\<rparr>],
                         next_application_id := Suc (next_application_id db)\<rparr>))"

definition increment_applications_count :: "store \<Rightarrow> nat option \<Rightarrow> store" where
  \<comment> \<open>\<open>UPDATE jobs SET applications_count = applications_count + 1 WHERE job_id = ?\<close>\<close>
  "increment_applications_count db job_id =
     db\<lparr>jobs := map (\<lambda>j. if Some (j_job_id j) = job_id
                           then j\<lparr>applications_count := applications_count j + 1\<rparr> else j)
                    (jobs db)\<rparr>"

definition decrement_applications_count :: "store \<Rightarrow> nat \<Rightarrow> store" where
  \<comment> \<open>\<open>UPDATE jobs SET applications_count = GREATEST(applications_count - 1, 0)
      WHERE job_id = ?\<close>\<close>
  "decrement_applications_count db jid =
     db\<lparr>jobs := map (\<lambda>j. if j_job_id j = jid
                           then j\<lparr>applications_count := max (applications_count j - 1) 0\<rparr>
                           else j)
                    (jobs db)\<rparr>"

definition delete_application :: "store \<Rightarrow> nat \<Rightarrow> store" where
  \<comment> \<open>\<open>DELETE FROM applications WHERE application_id = ?\<close>\<close>
  "delete_application db aid =
     db\<lparr>applications := filter (\<lambda>a. application_id a \<noteq> aid) (applications db)\<rparr>"

definition update_application_status :: "store \<Rightarrow> string \<Rightarrow> nat \<Rightarrow> store" where
  \<comment> \<open>\<open>UPDATE applications SET status = ? WHERE application_id = ?\<close>\<close>
  "update_application_status db st aid =
     db\<lparr>applications := map (\<lambda>a. if application_id a = aid then a\<lparr>a_status := st\<rparr> else a)
                            (applications db)\<rparr>"

definition authorizeRoles :: "role list \<Rightarrow> auth_user \<Rightarrow> bool" where
  \<comment> \<open>Modelled from the spec: \<open>middleware/auth.js\<close> is not among the sources. The role
      gate answers whether the caller's role is in the given set; the request reaches the
      handler only when it is.\<close>
  "authorizeRoles roles user = (role user \<in> set roles)"

section \<open>Mock interview: POST /mock-interview\<close>

record star_components =
  star_situation :: bool
  star_task :: bool
  star_action :: bool
  star_result :: bool

record interview_report =
  mi_score :: int
  mi_feedback :: "string list"
  mi_wordCount :: nat
  mi_starComponents :: star_components

definition mock_interview ::
  "fault \<Rightarrow> store \<Rightarrow> auth_user \<Rightarrow> string option \<Rightarrow> string option \<Rightarrow> int option
     \<Rightarrow> store \<times> interview_report response" where
  \<comment> \<open>the arguments after the caller are \<open>prompt\<close>, \<open>response\<close> and \<open>duration\<close> of
      \<open>req.body\<close>; \<open>None\<close> is an absent field\<close>
  "mock_interview fault db user prompt response duration =
     (case (prompt, response) of
        (Some p, Some r) \<Rightarrow>
          if p = [] \<or> r = [] then (db, Msg 400 False ''Prompt and response are required'')
          else
            let totalScore = totalScore_of r;
                row = \<lparr> ip_user_id = userId user, ip_prompt = p, ip_response = r,
                        ip_duration = (case duration of None \<Rightarrow> None
                                       | Some d \<Rightarrow> if d = 0 then None else Some d),
                        ip_score = totalScore \<rparr>
            in (case (if throws fault 0 then None else insert_interview_practice db row) of
                  None \<Rightarrow> (db, Msg 500 False ''Failed to save interview practice'')
                | Some db' \<Rightarrow>
                    (db', Payload \<lparr> mi_score = totalScore,
                                    mi_feedback = feedback_for r,
                                    mi_wordCount = wordCount_of r,
                                    mi_starComponents =
                                      \<lparr> star_situation = hasSituation_in r,
                                        star_task = hasTask_in r,
                                        star_action = hasAction_in r,
                                        star_result = hasResult_in r \<rparr> \<rparr>))
      | _ \<Rightarrow> (db, Msg 400 False ''Prompt and response are required''))"

section \<open>Career statistics: GET /stats\<close>

text \<open>
  The handler computes on the result rows of two aggregate queries: \<open>count\<close>
  (\<open>COUNT(*)\<close>) and \<open>avgScore\<close> (\<open>AVG(score)\<close>, a decimal, \<open>NULL\<close> for a user without
  interview practice), and \<open>totalApps\<close>, \<open>accepted\<close>, \<open>shortlisted\<close>. JavaScript
  numbers are rationals here: the counts, the caps and the sums are computed as written,
  and the product with \<open>0.3\<close> is the exact one. \<open>Math.round\<close> rounds to the nearest
  integer, a half upwards.
\<close>

definition or_zero :: "'a::zero option \<Rightarrow> 'a" where
  \<comment> \<open>\<open>v || 0\<close> on a value that is \<open>NULL\<close> or a number\<close>
  "or_zero v = (case v of None \<Rightarrow> 0 | Some a \<Rightarrow> a)"

definition Math_round :: "rat \<Rightarrow> int" where
  "Math_round x = \<lfloor>x + 1 / 2\<rfloor>"

definition interviewWeight_of :: "nat \<Rightarrow> rat" where
  "interviewWeight_of interviewCount = min 40 (of_nat interviewCount * 8)"

definition scoreWeight_of :: "rat \<Rightarrow> rat" where
  "scoreWeight_of avgScore = min 30 (avgScore * 0.3)"

definition activityWeight_of :: "nat \<Rightarrow> rat" where
  "activityWeight_of totalApps = min 30 (of_nat totalApps * 3)"

definition confidencePulse_of :: "nat \<Rightarrow> rat \<Rightarrow> nat \<Rightarrow> int" where
  "confidencePulse_of interviewCount avgScore totalApps =
     Math_round (interviewWeight_of interviewCount + scoreWeight_of avgScore
                 + activityWeight_of totalApps)"

record stats_report =
  confidencePulse :: int
  interviewPracticeCount :: nat
  averageInterviewScore :: int
  totalApplications :: nat
  acceptedApplications :: nat
  shortlistedApplications :: nat

definition career_stats ::
  "fault \<Rightarrow> nat \<times> rat option \<Rightarrow> nat \<times> nat option \<times> nat option \<Rightarrow> stats_report response" where
  \<comment> \<open>the second and third arguments are \<open>interviewStats[0]\<close> and \<open>appStats[0]\<close>\<close>
  "career_stats fault interviewStats appStats =
     (if throws fault 0 \<or> throws fault 1 then Msg 500 False ''Failed to fetch career stats''
      else
        let interviewCount = fst interviewStats;
            avgScore = or_zero (snd interviewStats);
            totalApps = fst appStats
        in Payload \<lparr> confidencePulse = confidencePulse_of interviewCount avgScore totalApps,
                      interviewPracticeCount = interviewCount,
                      averageInterviewScore = Math_round avgScore,
                      totalApplications = totalApps,
                      acceptedApplications = or_zero (fst (snd appStats)),
                      shortlistedApplications = or_zero (snd (snd appStats)) \<rparr>)"

section \<open>Applications: POST /apply, DELETE /:id, PUT /:id/status\<close>

text \<open>
  The notification mails of these handlers go through \<open>sendEmail\<close>, which catches its
  own errors and returns a boolean that the handlers ignore; a mail changes neither the
  store nor the reply and is not part of the state.
\<close>

definition resumePath_for :: "store \<Rightarrow> auth_user \<Rightarrow> string option \<Rightarrow> string option" where
  \<comment> \<open>the uploaded file, or else the resume of the caller's profile
      (\<open>profile[0]?.resume\<close>, which the driver sends as \<open>NULL\<close> when it is undefined)\<close>
  "resumePath_for db user file =
     (case file of
        Some filename \<Rightarrow> Some (''/uploads/'' @ filename)
      | None \<Rightarrow>
          (case filter (\<lambda>p. p_user_id p = userId user) (profiles db) of
             [] \<Rightarrow> None
           | p # _ \<Rightarrow> p_resume p))"

definition apply_job ::
  "fault \<Rightarrow> store \<Rightarrow> auth_user \<Rightarrow> nat option \<Rightarrow> string option \<Rightarrow> string option
     \<Rightarrow> store \<times> unit response" where
  \<comment> \<open>the arguments after the caller are \<open>req.body.job_id\<close>, the name of the uploaded
      file (\<open>req.file.filename\<close>) and \<open>req.body.cover_letter\<close>. Statements: 0 the check
      for an earlier application, 1 the profile's resume, 2 the insertion, 3 the counter,
      4 the job and its poster for the mail.\<close>
  "apply_job fault db user job_id file cover_letter =
     (let failed = Msg 500 False ''Failed to submit application'' in
      if throws fault 0 then (db, failed)
      else
        let existing = filter (\<lambda>a. Some (a_job_id a) = job_id \<and> a_user_id a = userId user)
                         (applications db)
        in if length existing > 0 then (db, Msg 400 False ''Already applied to this job'')
           else if file = None \<and> throws fault 1 then (db, failed)
           else
             let resumePath = resumePath_for db user file
             in (case (if throws fault 2 then None
                       else insert_application db job_id (userId user) resumePath cover_letter) of
                   None \<Rightarrow> (db, failed)
                 | Some db1 \<Rightarrow>
                     if throws fault 3 then (db1, failed)
                     else
                       let db2 = increment_applications_count db1 job_id
                       in if throws fault 4 then (db2, failed)
                          else (db2, Msg 201 True ''Application submitted successfully'')))"

definition withdraw_application ::
  "fault \<Rightarrow> store \<Rightarrow> auth_user \<Rightarrow> nat \<Rightarrow> store \<times> unit response" where
  \<comment> \<open>the last argument is \<open>req.params.id\<close>. Statements: 0 the application, 1 the
      deletion, 2 the counter.\<close>
  "withdraw_application fault db user aid =
     (let failed = Msg 500 False ''Failed to withdraw application'' in
      if \<not> authorizeRoles [Job_seeker, Student, Alumni, Job_poster, Admin] user
      then (db, Denied)
      else if throws fault 0 then (db, failed)
      else
        (case filter (\<lambda>a. application_id a = aid) (applications db) of
           [] \<Rightarrow> (db, Msg 404 False ''Application not found'')
         | application # _ \<Rightarrow>
             if a_user_id application \<noteq> userId user \<and> role user \<noteq> Admin
             then (db, Msg 403 False ''Not authorized to withdraw this application'')
             else if throws fault 1 then (db, failed)
             else
               let db1 = delete_application db aid
               in if throws fault 2 then (db1, failed)
                  else (decrement_applications_count db1 (a_job_id application),
                        Msg 200 True ''Application withdrawn successfully'')))"

definition valid_statuses :: "string list" where
  "valid_statuses = [''pending'', ''reviewed'', ''shortlisted'', ''rejected'', ''accepted'']"

definition update_status ::
  "fault \<Rightarrow> store \<Rightarrow> auth_user \<Rightarrow> nat \<Rightarrow> string option \<Rightarrow> store \<times> unit response" where
  \<comment> \<open>the last arguments are \<open>req.params.id\<close> and \<open>req.body.status\<close>. Statements: 0 the
      application joined with its job and its applicant, 1 the update.\<close>
  "update_status fault db user aid status =
     (let failed = Msg 500 False ''Failed to update status'' in
      if \<not> authorizeRoles [Job_poster, Alumni, Admin] user then (db, Denied)
      else
        (case status of
           None \<Rightarrow> (db, Msg 400 False ''Invalid status'')
         | Some st \<Rightarrow>
             if st \<notin> set valid_statuses then (db, Msg 400 False ''Invalid status'')
             else if throws fault 0 then (db, failed)
             else
               (case [(a, j, u). a \<leftarrow> applications db, application_id a = aid,
                                  j \<leftarrow> jobs db, j_job_id j = a_job_id a,
                                  u \<leftarrow> users db, u_user_id u = a_user_id a] of
                  [] \<Rightarrow> (db, Msg 404 False ''Application not found'')
                | (app, j, u) # _ \<Rightarrow>
                    if j_user_id j \<noteq> userId user \<and> role user \<noteq> Admin
                    then (db, Msg 403 False ''Not authorized'')
                    else if throws fault 1 then (db, failed)
                    else (update_application_status db st aid,
                          Msg 200 True ''Application status updated''))))"

section \<open>Vocabulary of the properties\<close>

text \<open>
  The definitions of this section are not code of the repository: they are the terms in
  which the properties below are stated.
\<close>

definition lower_word :: "string \<Rightarrow> bool" where
  \<comment> \<open>a word of the letters a to z\<close>
  "lower_word w = list_all (\<lambda>p. 97 \<le> (of_char p :: nat) \<and> (of_char p :: nat) \<le> 122) w"

definition mentions :: "string list \<Rightarrow> string \<Rightarrow> bool" where
  \<comment> \<open>the text contains one of the words, in whatever case\<close>
  "mentions ws s = list_ex (\<lambda>w. sublist w (toLowerCase s)) ws"

fun word_starts :: "bool \<Rightarrow> string \<Rightarrow> nat" where
  \<comment> \<open>the number of characters that begin a word: characters that are not white space
      and come first (when the flag is set) or after white space\<close>
  "word_starts after_space [] = 0"
| "word_starts after_space (c # cs) =
     (if after_space \<and> \<not> isWhiteSpace c then 1 else 0) + word_starts (isWhiteSpace c) cs"

definition words_in :: "string \<Rightarrow> nat" where
  \<comment> \<open>the number of words of a text: of its maximal runs without white space\<close>
  "words_in s = word_starts True s"

definition personalized_tips :: "string \<Rightarrow> string list" where
  \<comment> \<open>the tips (a) to (d) of the specification, in its order\<close>
  "personalized_tips resumeText =
     (if \<not> hasMetrics_in resumeText then [tip_metrics] else [])
     @ (if length (foundKeywords_in resumeText) < 3
        then [''Include action verbs like: '' @
              join '', '' (take 5 (filter (\<lambda>kw. kw \<notin> set (foundKeywords_in resumeText))
                                     resume_keywords))]
        else [])
     @ (if length resumeText < 150 then [tip_expand] else [])
     @ (if \<not> sublist ''project'' (toLowerCase resumeText)
           \<and> \<not> sublist ''initiative'' (toLowerCase resumeText)
        then [tip_projects] else [])"

definition job_by_id :: "store \<Rightarrow> nat \<Rightarrow> job_row option" where
  "job_by_id db jid = find (\<lambda>j. j_job_id j = jid) (jobs db)"

definition user_by_id :: "store \<Rightarrow> nat \<Rightarrow> user_row option" where
  "user_by_id db uid = find (\<lambda>u. u_user_id u = uid) (users db)"

definition application_by_id :: "store \<Rightarrow> nat \<Rightarrow> application_row option" where
  "application_by_id db aid = find (\<lambda>a. application_id a = aid) (applications db)"

definition applications_count_of :: "store \<Rightarrow> nat \<Rightarrow> int option" where
  \<comment> \<open>the stored counter of a job\<close>
  "applications_count_of db jid = map_option applications_count (job_by_id db jid)"

definition applications_of :: "store \<Rightarrow> nat \<Rightarrow> nat \<Rightarrow> application_row list" where
  \<comment> \<open>the application rows of a user for a job\<close>
  "applications_of db jid uid =
     filter (\<lambda>a. a_job_id a = jid \<and> a_user_id a = uid) (applications db)"

subsection \<open>Example data\<close>

definition example_store :: store where
  "example_store =
     \<lparr> users = [\<lparr>u_user_id = 1, u_name = ''Asha'', u_email = ''asha@example.org''\<rparr>,
                \<lparr>u_user_id = 2, u_name = ''Ravi'', u_email = ''ravi@example.org''\<rparr>],
       profiles = [\<lparr>p_user_id = 2, p_resume = Some ''/uploads/ravi.pdf''\<rparr>],
       jobs = [\<lparr>j_job_id = 10, j_user_id = 1, j_title = ''Engineer'', j_company = ''Acme'',
                 applications_count = 0\<rparr>],
       applications = [],
       next_application_id = 1,
       interview_practice = [] \<rparr>"

definition example_application :: application_row where
  "example_application =
     \<lparr>application_id = 1, a_job_id = 10, a_user_id = 2, a_resume = Some ''/uploads/ravi.pdf'',
       a_cover_letter = None, a_status = ''accepted''\<rparr>"

definition example_store_applied :: store where
  \<comment> \<open>Ravi's application to job 10 has been accepted\<close>
  "example_store_applied =
     example_store
       \<lparr> jobs := [\<lparr>j_job_id = 10, j_user_id = 1, j_title = ''Engineer'', j_company = ''Acme'',
                    applications_count = 1\<rparr>],
         applications := [example_application],
         next_application_id := 2 \<rparr>"

definition example_store_drifted :: store where
  \<comment> \<open>the same application, with the counter of the job at 0\<close>
  "example_store_drifted =
     example_store\<lparr>applications := [example_application], next_application_id := 2\<rparr>"

definition example_store_after_apply :: store where
  \<comment> \<open>\<open>example_store\<close> after Ravi has applied to job 10\<close>
  "example_store_after_apply =
     example_store
       \<lparr> jobs := [\<lparr>j_job_id = 10, j_user_id = 1, j_title = ''Engineer'', j_company = ''Acme'',
                    applications_count = 1\<rparr>],
         applications :=
           [\<lparr>application_id = 1, a_job_id = 10, a_user_id = 2,
             a_resume = Some ''/uploads/ravi.pdf'', a_cover_letter = Some ''Dear team'',
             a_status = ''pending''\<rparr>],
         next_application_id := 2 \<rparr>"

definition example_seeker :: auth_user where
  "example_seeker = \<lparr>userId = 2, role = Job_seeker\<rparr>"

definition example_poster :: auth_user where
  "example_poster = \<lparr>userId = 1, role = Job_poster\<rparr>"

definition example_resume :: string where
  "example_resume = ''Led a team and increased revenue by 20% overall''"

definition example_resume_strong :: string where
  "example_resume_strong =
     ''Managed a project team of 12 engineers, developed a billing platform and increased revenue by 35%. Designed and launched two internal tools that reduced support load.''"

definition example_response :: string where
  \<comment> \<open>150 words\<close>
  "example_response =
     ''situation task action result a a a a a a a a a a a a a a a a a a a a a a a a a a a a a a a a a a a a a a a a a a a a a a a a a a a a a a a a a a a a a a a a a a a a a a a a a a a a a a a a a a a a a a a a a a a a a a a a a a a a a a a a a a a a a a a a a a a a a a a a a a a a a a a a a a a a a a a a a a a a a a a a a a''"

section \<open>Strings and regular expressions\<close>

lemma sublist_map_iff: "sublist w (map f s) \<longleftrightarrow> (\<exists>u. sublist u s \<and> map f u = w)"
proof
  assume "sublist w (map f s)"
  then obtain ps ss where "map f s = ps @ (w @ ss)" by (auto simp: sublist_def)
  then have "\<exists>us vs. s = us @ vs \<and> ps = map f us \<and> w @ ss = map f vs"
    by (simp only: map_eq_append_conv)
  then obtain a vs where 1: "s = a @ vs" and 2: "w @ ss = map f vs" by blast
  from 2 have "\<exists>us ws. vs = us @ ws \<and> w = map f us \<and> ss = map f ws"
    by (simp only: append_eq_map_conv)
  then obtain b c where "vs = b @ c" "map f b = w" by auto
  with 1 have "sublist b s \<and> map f b = w" by (auto simp: sublist_def)
  then show "\<exists>u. sublist u s \<and> map f u = w" ..
next
  assume "\<exists>u. sublist u s \<and> map f u = w"
  then obtain u ps ss where "s = ps @ u @ ss" "map f u = w" by (auto simp: sublist_def)
  then have "map f s = map f ps @ w @ map f ss" by simp
  then show "sublist w (map f s)" unfolding sublist_def by blast
qed

lemma trim_Nil: "trim [] = []"
  by (simp add: trim_def)

lemma trim_whitespace:
  assumes "list_all isWhiteSpace r"
  shows "trim r = []"
proof -
  from assms have d: "dropWhile isWhiteSpace r = []"
    unfolding dropWhile_eq_Nil_conv list_all_iff .
  show ?thesis unfolding trim_def d by simp
qed

lemma code_toLowerCase_char:
  "(of_char (toLowerCase_char c) :: nat) =
     (let n = of_char c :: nat
      in if (65 \<le> n \<and> n \<le> 90) \<or> (192 \<le> n \<and> n \<le> 222 \<and> n \<noteq> 215) then n + 32 else n)"
  by (auto simp: toLowerCase_char_def Let_def of_char_of)

lemma toLowerCase_whitespace: "isWhiteSpace c \<Longrightarrow> toLowerCase_char c = c"
  by (auto simp: isWhiteSpace_def toLowerCase_char_def Let_def)

text \<open>
  Under the \<open>i\<close> flag a letter a to z of a pattern matches the characters that
  \<open>toLowerCase\<close> maps to it.
\<close>

lemma char_eq_lower:
  assumes "97 \<le> (of_char p :: nat)" "(of_char p :: nat) \<le> 122"
  shows "char_eq True p c \<longleftrightarrow> toLowerCase_char c = p"
proof -
  have arith: "\<And>n m :: nat. 97 \<le> m \<Longrightarrow> m \<le> 122 \<Longrightarrow>
      ((if (65 \<le> n \<and> n \<le> 90) \<or> (192 \<le> n \<and> n \<le> 222 \<and> n \<noteq> 215) then n + 32 else n) = m) =
      ((if (97 \<le> m \<and> m \<le> 122) \<or> (224 \<le> m \<and> m \<le> 254 \<and> m \<noteq> 247) then m - 32
         else if m = 255 then 376 else if m = 181 then 924 else m) =
       (if (97 \<le> n \<and> n \<le> 122) \<or> (224 \<le> n \<and> n \<le> 254 \<and> n \<noteq> 247) then n - 32
         else if n = 255 then 376 else if n = 181 then 924 else n))"
    by (simp split: if_splits) arith
  have "toLowerCase_char c = p \<longleftrightarrow> (of_char (toLowerCase_char c) :: nat) = of_char p"
    by auto
  also have "\<dots> \<longleftrightarrow> canonicalize p = canonicalize c"
    unfolding code_toLowerCase_char canonicalize_def Let_def
    by (rule arith[OF assms])
  finally show ?thesis by (simp add: char_eq_def)
qed

lemma match_lit_lower:
  "lower_word w \<Longrightarrow>
   match_lit True w s = (if prefix w (toLowerCase s) then Some (drop (length w) s) else None)"
proof (induction w arbitrary: s)
  case Nil
  then show ?case by simp
next
  case (Cons p ps)
  then have p: "97 \<le> (of_char p :: nat)" "(of_char p :: nat) \<le> 122" and ps: "lower_word ps"
    by (simp_all add: lower_word_def)
  show ?case
  proof (cases s)
    case Nil
    then show ?thesis by (simp add: toLowerCase_def)
  next
    case (Cons c cs)
    then show ?thesis
      using Cons.IH[OF ps, of cs] char_eq_lower[OF p, of c]
      by (auto simp: toLowerCase_def)
  qed
qed

lemma run_Words_lower:
  "list_all lower_word ws \<Longrightarrow>
   run True (Words ws) s \<noteq> [] \<longleftrightarrow> (\<exists>w\<in>set ws. prefix w (toLowerCase s))"
  by (induction ws) (auto simp: List.map_filter_simps match_lit_lower)

lemma test_Words_lower:
  "list_all lower_word ws \<Longrightarrow>
   test True (Words ws) s \<longleftrightarrow> (\<exists>w\<in>set ws. sublist w (toLowerCase s))"
proof (induction s)
  case Nil
  then show ?case
    using run_Words_lower[of ws "[]"] by (auto simp: toLowerCase_def)
next
  case (Cons c cs)
  have "test True (Words ws) (c # cs) \<longleftrightarrow>
          (\<exists>w\<in>set ws. prefix w (toLowerCase (c # cs))) \<or> (\<exists>w\<in>set ws. sublist w (toLowerCase cs))"
    using Cons run_Words_lower[of ws "c # cs"] by simp
  also have "\<dots> \<longleftrightarrow> (\<exists>w\<in>set ws. sublist w (toLowerCase (c # cs)))"
    by (auto simp: toLowerCase_def sublist_Cons_right)
  finally show ?case .
qed

lemma lower_word_no_whitespace:
  assumes "list_all isWhiteSpace r" "lower_word w" "w \<noteq> []"
  shows "\<not> sublist w (toLowerCase r)"
proof
  assume "sublist w (toLowerCase r)"
  then have "set w \<subseteq> set (toLowerCase r)" by (rule set_mono_sublist)
  moreover from assms(3) obtain p where p: "p \<in> set w" by (cases w) auto
  ultimately obtain c where c: "c \<in> set r" "toLowerCase_char c = p"
    by (auto simp: toLowerCase_def)
  from c(1) assms(1) have ws: "isWhiteSpace c" by (simp add: list_all_iff)
  with c(2) have "isWhiteSpace p" by (simp add: toLowerCase_whitespace)
  moreover from p assms(2) have "97 \<le> (of_char p :: nat) \<and> (of_char p :: nat) \<le> 122"
    by (simp add: lower_word_def list_all_iff)
  ultimately show False by (auto simp: isWhiteSpace_def)
qed

lemma test_Words_whitespace:
  assumes "list_all isWhiteSpace r" "list_all lower_word ws" "[] \<notin> set ws"
  shows "\<not> test True (Words ws) r"
proof -
  have "\<not> sublist w (toLowerCase r)" if "w \<in> set ws" for w
    using that assms lower_word_no_whitespace[of r w] by (auto simp: list_all_iff)
  then show ?thesis by (simp add: test_Words_lower[OF assms(2)])
qed

section \<open>Resume analysis\<close>

lemma analyze_resume_accepted:
  assumes "20 \<le> length (trim resumeText)"
  shows "analyze_resume (Some resumeText) =
           Payload \<lparr> score = score_for resumeText, tips = tips_for resumeText,
                     foundKeywords = take 5 (foundKeywords_in resumeText),
                     hasMetrics = hasMetrics_in resumeText \<rparr>"
proof -
  from assms have "resumeText \<noteq> []" using trim_Nil by auto
  with assms show ?thesis by (simp add: analyze_resume_def)
qed

lemma distinct_keywords: "distinct resume_keywords"
  by (simp add: resume_keywords_def)

lemma found_card:
  "length (foundKeywords_in t) =
     card {kw \<in> set resume_keywords. \<exists>u. sublist u t \<and> toLowerCase u = kw}"
proof -
  have "distinct (foundKeywords_in t)"
    unfolding foundKeywords_in_def using distinct_keywords by simp
  then have "length (foundKeywords_in t) = card (set (foundKeywords_in t))"
    by (simp add: distinct_card)
  also have "set (foundKeywords_in t) =
      {kw \<in> set resume_keywords. \<exists>u. sublist u t \<and> toLowerCase u = kw}"
    by (auto simp: foundKeywords_in_def str_includes_def toLowerCase_def sublist_map_iff)
  finally show ?thesis .
qed

lemma tips_nonempty: "tips_for t \<noteq> []"
  by (simp add: tips_for_def Let_def generic_tips_def)

lemma missing_complement:
  "missingKeywords_in t = filter (\<lambda>kw. kw \<notin> set (foundKeywords_in t)) resume_keywords"
  unfolding missingKeywords_in_def foundKeywords_in_def
  by (rule filter_cong) auto

lemma tips_for_personalized:
  "tips_for t = (if personalized_tips t = [] then generic_tips else personalized_tips t)"
  by (simp add: tips_for_def personalized_tips_def Let_def str_includes_def tip_verbs_def
      missing_complement)

lemma tip_verbs_not_generic: "''Include action verbs like: '' @ x \<notin> set generic_tips"
  by (simp add: generic_tips_def)

lemma personalized_not_generic: "set (personalized_tips t) \<inter> set generic_tips = {}"
proof -
  have "tip_metrics \<notin> set generic_tips" "tip_expand \<notin> set generic_tips"
       "tip_projects \<notin> set generic_tips"
    by (simp_all add: generic_tips_def tip_metrics_def tip_expand_def tip_projects_def)
  then show ?thesis
    using tip_verbs_not_generic by (auto simp: personalized_tips_def split: if_splits)
qed

lemma personalized_empty_iff:
  "personalized_tips t = [] \<longleftrightarrow>
     hasMetrics_in t \<and> 3 \<le> length (foundKeywords_in t) \<and> 150 \<le> length t
     \<and> (sublist ''project'' (toLowerCase t) \<or> sublist ''initiative'' (toLowerCase t))"
  by (auto simp: personalized_tips_def)

text \<open>
  C1. Every resume text that the analyzer accepts (trimmed length at least 20) gets the
  score min(100, 8 * number of found keywords + 25 if a metric is found + 15 if the text
  is longer than 150 + 20), where the found keywords are the keywords of the fixed list of
  15 that occur in the text as substrings in whatever case; the score lies between 0 and
  100 and the list of tips is not empty.
\<close>

theorem resume_score_formula:
  assumes "20 \<le> length (trim resumeText)"
  shows "analyze_resume (Some resumeText) =
           Payload \<lparr> score = score_for resumeText, tips = tips_for resumeText,
                     foundKeywords = take 5 (foundKeywords_in resumeText),
                     hasMetrics = hasMetrics_in resumeText \<rparr>
     \<and> length resume_keywords = 15
     \<and> score_for resumeText =
         min 100 (8 * int (card {kw \<in> set resume_keywords.
                                   \<exists>u. sublist u resumeText \<and> toLowerCase u = kw})
                  + (if hasMetrics_in resumeText then 25 else 0)
                  + (if length resumeText > 150 then 15 else 0) + 20)
     \<and> 0 \<le> score_for resumeText \<and> score_for resumeText \<le> 100
     \<and> tips_for resumeText \<noteq> []"
proof -
  have "score_for resumeText =
         min 100 (8 * int (card {kw \<in> set resume_keywords.
                                   \<exists>u. sublist u resumeText \<and> toLowerCase u = kw})
                  + (if hasMetrics_in resumeText then 25 else 0)
                  + (if length resumeText > 150 then 15 else 0) + 20)"
    unfolding score_for_def found_card by simp
  moreover have "0 \<le> score_for resumeText" "score_for resumeText \<le> 100"
    unfolding score_for_def by simp_all
  moreover have "length resume_keywords = 15"
    by (simp add: resume_keywords_def)
  ultimately show ?thesis
    using analyze_resume_accepted[OF assms] tips_nonempty[of resumeText] by simp
qed

theorem resume_score_formula_witness:
  "20 \<le> length (trim example_resume)
   \<and> score_for example_resume = 61
   \<and> min 100 (8 * int (card {kw \<in> set resume_keywords.
                               \<exists>u. sublist u example_resume \<and> toLowerCase u = kw})
              + 25 + 0 + 20) = 61"
proof -
  have h: "20 \<le> length (trim example_resume)" by code_simp
  have m: "hasMetrics_in example_resume" by code_simp
  have l: "\<not> length example_resume > 150" by code_simp
  have s: "score_for example_resume = 61" by code_simp
  from resume_score_formula[OF h] h m l s show ?thesis by simp
qed

text \<open>
  C6. A resume text that is missing, or whose trimmed length is below 20, is rejected with
  the 400 reply; the reply carries no score, tips or keywords.
\<close>

theorem resume_short_rejected:
  assumes "body = None \<or> (\<exists>t. body = Some t \<and> length (trim t) < 20)"
  shows "analyze_resume body =
           Msg 400 False ''Please provide resume text (minimum 20 characters)''"
  using assms by (auto simp: analyze_resume_def)

theorem resume_short_rejected_witness:
  "length (trim ''    too short      '') < 20
   \<and> analyze_resume (Some ''    too short      '') =
       Msg 400 False ''Please provide resume text (minimum 20 characters)''"
proof -
  have h: "length (trim ''    too short      '') < 20" by code_simp
  then have "Some ''    too short      '' = None
      \<or> (\<exists>t. Some ''    too short      '' = Some t \<and> length (trim t) < 20)"
    by simp
  from resume_short_rejected[OF this] h show ?thesis by simp
qed

text \<open>
  C9. For an accepted resume text the tips are those of the four conditions, in the order
  (a) no metric found, (b) fewer than 3 keywords found, with the first 5 missing keywords,
  (c) text shorter than 150, (d) neither "project" nor "initiative" in the text; when
  none of the four holds the tips are the three generic ones. No generic tip is among the
  tips of the conditions, so the two sets never appear together.
\<close>

theorem resume_tips_order:
  assumes "20 \<le> length (trim resumeText)"
  shows "analyze_resume (Some resumeText) =
           Payload \<lparr> score = score_for resumeText, tips = tips_for resumeText,
                     foundKeywords = take 5 (foundKeywords_in resumeText),
                     hasMetrics = hasMetrics_in resumeText \<rparr>
     \<and> tips_for resumeText =
         (if hasMetrics_in resumeText \<and> 3 \<le> length (foundKeywords_in resumeText)
             \<and> 150 \<le> length resumeText
             \<and> (sublist ''project'' (toLowerCase resumeText)
                \<or> sublist ''initiative'' (toLowerCase resumeText))
          then generic_tips else personalized_tips resumeText)
     \<and> length generic_tips = 3
     \<and> set (personalized_tips resumeText) \<inter> set generic_tips = {}"
proof -
  have "tips_for resumeText =
         (if hasMetrics_in resumeText \<and> 3 \<le> length (foundKeywords_in resumeText)
             \<and> 150 \<le> length resumeText
             \<and> (sublist ''project'' (toLowerCase resumeText)
                \<or> sublist ''initiative'' (toLowerCase resumeText))
          then generic_tips else personalized_tips resumeText)"
    unfolding tips_for_personalized personalized_empty_iff ..
  moreover have "length generic_tips = 3" by (simp add: generic_tips_def)
  ultimately show ?thesis
    using analyze_resume_accepted[OF assms] personalized_not_generic[of resumeText] by simp
qed

theorem resume_tips_order_witness:
  "20 \<le> length (trim example_resume) \<and> 20 \<le> length (trim example_resume_strong)
   \<and> tips_for example_resume_strong = generic_tips
   \<and> tips_for example_resume =
       [''Include action verbs like: leadership, managed, developed, implemented, achieved'',
        tip_expand, tip_projects]"
proof -
  have h1: "20 \<le> length (trim example_resume)" by code_simp
  have h2: "20 \<le> length (trim example_resume_strong)" by code_simp
  have a: "hasMetrics_in example_resume_strong \<and> 3 \<le> length (foundKeywords_in example_resume_strong)
             \<and> 150 \<le> length example_resume_strong
             \<and> (sublist ''project'' (toLowerCase example_resume_strong)
                \<or> sublist ''initiative'' (toLowerCase example_resume_strong))"
    by code_simp
  have b: "\<not> 150 \<le> length example_resume" by code_simp
  have p: "personalized_tips example_resume =
       [''Include action verbs like: leadership, managed, developed, implemented, achieved'',
        tip_expand, tip_projects]"
    by code_simp
  from resume_tips_order[OF h1] resume_tips_order[OF h2] h1 h2 a b p show ?thesis by simp
qed

section \<open>Mock interview\<close>

lemma hasSituation_mentions:
  "hasSituation_in r = mentions [''situation'', ''context'', ''background''] r"
  unfolding hasSituation_in_def mentions_def
  by (subst test_Words_lower) (simp_all add: lower_word_def list_ex_iff)

lemma hasTask_mentions:
  "hasTask_in r = mentions [''task'', ''goal'', ''objective'', ''challenge''] r"
  unfolding hasTask_in_def mentions_def
  by (subst test_Words_lower) (simp_all add: lower_word_def list_ex_iff)

lemma hasAction_mentions:
  "hasAction_in r =
     mentions [''action'', ''did'', ''implemented'', ''executed'', ''performed''] r"
  unfolding hasAction_in_def mentions_def
  by (subst test_Words_lower) (simp_all add: lower_word_def list_ex_iff)

lemma hasResult_mentions:
  "hasResult_in r =
     mentions [''result'', ''outcome'', ''impact'', ''achieved'', ''accomplished''] r"
  unfolding hasResult_in_def mentions_def
  by (subst test_Words_lower) (simp_all add: lower_word_def list_ex_iff)

lemma totalScore_range: "0 \<le> totalScore_of r \<and> totalScore_of r \<le> 100"
  by (simp add: totalScore_of_def starScore_of_def lengthScore_of_def)

lemma totalScore_full:
  assumes "hasSituation_in r" "hasTask_in r" "hasAction_in r" "hasResult_in r"
  shows "totalScore_of r = 100"
  using assms by (simp add: totalScore_of_def starScore_of_def lengthScore_of_def)

lemma mock_interview_accepted:
  assumes "p \<noteq> []" "r \<noteq> []" "\<not> throws fault 0" "user_exists db (userId user)"
  shows "mock_interview fault db user (Some p) (Some r) d =
     (db\<lparr>interview_practice := interview_practice db @
           [\<lparr> ip_user_id = userId user, ip_prompt = p, ip_response = r,
              ip_duration = (case d of None \<Rightarrow> None | Some n \<Rightarrow> if n = 0 then None else Some n),
              ip_score = totalScore_of r \<rparr>]\<rparr>,
      Payload \<lparr> mi_score = totalScore_of r, mi_feedback = feedback_for r,
                mi_wordCount = wordCount_of r,
                mi_starComponents =
                  \<lparr> star_situation = hasSituation_in r, star_task = hasTask_in r,
                    star_action = hasAction_in r, star_result = hasResult_in r \<rparr> \<rparr>)"
  using assms by (simp add: mock_interview_def insert_interview_practice_def Let_def)

lemma word_starts_dropWhile:
  "word_starts True (dropWhile isWhiteSpace s) = word_starts True s"
  by (induction s) auto

lemma word_starts_whitespace: "list_all isWhiteSpace u \<Longrightarrow> word_starts b u = 0"
  by (induction u arbitrary: b) auto

lemma word_starts_append_whitespace:
  "list_all isWhiteSpace u \<Longrightarrow> word_starts b (s @ u) = word_starts b s"
  by (induction s arbitrary: b) (auto simp: word_starts_whitespace)

lemma word_starts_head:
  "s \<noteq> [] \<Longrightarrow> \<not> isWhiteSpace (hd s) \<Longrightarrow> word_starts True s = Suc (word_starts False s)"
  by (cases s) auto

lemma split_count:
  "s = [] \<or> \<not> isWhiteSpace (last s) \<Longrightarrow>
   length (split_ws_from cur s) = Suc (word_starts False s)"
proof (induction cur s rule: split_ws_from.induct)
  case (1 cur)
  then show ?case by simp
next
  case (2 cur c cs)
  show ?case
  proof (cases "isWhiteSpace c")
    case True
    let ?r = "dropWhile isWhiteSpace cs"
    from 2(3) True have cs: "cs \<noteq> []" "\<not> isWhiteSpace (last cs)" by (auto split: if_splits)
    then have r: "?r \<noteq> []"
      by (metis dropWhile_eq_Nil_conv last_in_set)
    then have lr: "last ?r = last cs"
      by (metis append_take_drop_id last_appendR takeWhile_dropWhile_id)
    have hr: "\<not> isWhiteSpace (hd ?r)" using r by (simp add: hd_dropWhile)
    from 2(1)[OF True] r lr cs have "length (split_ws_from [] ?r) = Suc (word_starts False ?r)"
      by simp
    moreover have "word_starts False (c # cs) = word_starts True ?r"
      using True by (simp add: word_starts_dropWhile)
    moreover have "word_starts True ?r = Suc (word_starts False ?r)"
      using r hr by (rule word_starts_head)
    ultimately show ?thesis using True by simp
  next
    case False
    from 2(3) have "cs = [] \<or> \<not> isWhiteSpace (last cs)" by (auto split: if_splits)
    from 2(2)[OF False this] False show ?thesis by simp
  qed
qed

lemma trim_decompose:
  "\<exists>pre suf. r = pre @ trim r @ suf \<and> list_all isWhiteSpace pre \<and> list_all isWhiteSpace suf"
proof -
  let ?x = "dropWhile isWhiteSpace r"
  have "?x = rev (takeWhile isWhiteSpace (rev ?x) @ dropWhile isWhiteSpace (rev ?x))"
    by (simp only: takeWhile_dropWhile_id rev_rev_ident)
  also have "\<dots> = trim r @ rev (takeWhile isWhiteSpace (rev ?x))"
    unfolding trim_def by (rule rev_append)
  finally have 2: "?x = trim r @ rev (takeWhile isWhiteSpace (rev ?x))" .
  have 3: "list_all isWhiteSpace (takeWhile isWhiteSpace r)"
    by (auto simp: list_all_iff dest: set_takeWhileD)
  have 4: "list_all isWhiteSpace (rev (takeWhile isWhiteSpace (rev ?x)))"
    by (auto simp: list_all_iff dest: set_takeWhileD)
  have "r = takeWhile isWhiteSpace r @ trim r @ rev (takeWhile isWhiteSpace (rev ?x))"
    by (subst 2[symmetric]) simp
  with 3 4 show ?thesis by blast
qed

lemma trim_ends:
  assumes "trim r \<noteq> []"
  shows "\<not> isWhiteSpace (hd (trim r)) \<and> \<not> isWhiteSpace (last (trim r))"
proof -
  let ?x = "dropWhile isWhiteSpace r"
  let ?y = "dropWhile isWhiteSpace (rev ?x)"
  from assms have y: "?y \<noteq> []" by (simp add: trim_def)
  have x: "?x \<noteq> []"
  proof
    assume "?x = []"
    then have "?y = []" by (simp only: rev.simps dropWhile.simps)
    with y show False ..
  qed
  have "last (trim r) = hd ?y" using y by (simp add: trim_def last_rev)
  moreover have "\<not> isWhiteSpace (hd ?y)" using y by (simp add: hd_dropWhile)
  moreover have "hd (trim r) = last ?y" using y by (simp add: trim_def hd_rev)
  moreover have "last ?y = last (rev ?x)"
    using y by (metis append_take_drop_id last_appendR takeWhile_dropWhile_id)
  moreover have "last (rev ?x) = hd ?x" using x by (simp add: last_rev)
  moreover have "\<not> isWhiteSpace (hd ?x)" using x by (simp add: hd_dropWhile)
  ultimately show ?thesis by simp
qed

lemma words_in_trim: "words_in (trim r) = words_in r"
proof -
  obtain pre suf where d: "r = pre @ trim r @ suf" "list_all isWhiteSpace pre"
    "list_all isWhiteSpace suf"
    using trim_decompose by blast
  have "word_starts True (pre @ t) = word_starts True t" if "list_all isWhiteSpace pre" for pre t
    using that by (induction pre) auto
  from this[OF d(2), of "trim r @ suf"] have "word_starts True r = word_starts True (trim r @ suf)"
    using d(1) by simp
  also have "\<dots> = word_starts True (trim r)"
    by (rule word_starts_append_whitespace[OF d(3)])
  finally show ?thesis by (simp add: words_in_def)
qed

text \<open>
  The word count of the handler is the number of words of the response, but 1 when the
  response has no word.
\<close>

lemma wordCount_words: "wordCount_of r = max 1 (words_in r)"
proof (cases "trim r = []")
  case True
  then have "words_in r = 0" using words_in_trim[of r] by (simp add: words_in_def)
  with True show ?thesis by (simp add: wordCount_of_def split_ws_def)
next
  case False
  from trim_ends[OF False] have e: "\<not> isWhiteSpace (hd (trim r))" "\<not> isWhiteSpace (last (trim r))"
    by simp_all
  have s: "wordCount_of r = Suc (word_starts False (trim r))"
    unfolding wordCount_of_def split_ws_def using e(2) by (simp add: split_count)
  also have "\<dots> = word_starts True (trim r)"
    using word_starts_head[OF False e(1)] by simp
  also have "\<dots> = words_in r" using words_in_trim[of r] by (simp add: words_in_def)
  finally have w: "wordCount_of r = words_in r" .
  with s have "1 \<le> words_in r" by linarith
  with w show ?thesis by simp
qed

lemma wordCount_whitespace: "list_all isWhiteSpace r \<Longrightarrow> wordCount_of r = 1"
  by (simp add: wordCount_of_def trim_whitespace split_ws_def)

lemma star_whitespace:
  assumes "list_all isWhiteSpace r"
  shows "\<not> hasSituation_in r" "\<not> hasTask_in r" "\<not> hasAction_in r" "\<not> hasResult_in r"
  unfolding hasSituation_in_def hasTask_in_def hasAction_in_def hasResult_in_def
  by (rule test_Words_whitespace[OF assms]; simp add: lower_word_def)+

lemma totalScore_whitespace: "list_all isWhiteSpace r \<Longrightarrow> totalScore_of r = 10"
  by (simp add: totalScore_of_def starScore_of_def lengthScore_of_def star_whitespace
      wordCount_whitespace)

lemma feedback_whitespace:
  "list_all isWhiteSpace r \<Longrightarrow>
   feedback_for r =
     [''Add context: Describe the situation or background'',
      ''Clarify the task: What was your goal or challenge?'',
      ''Detail your action: What specific steps did you take?'',
      ''Share the result: What was the outcome or impact?'',
      ''Expand your response with more details and specific examples'']"
  by (simp add: feedback_for_def Let_def star_whitespace wordCount_whitespace)

text \<open>
  C2. A submission with a prompt and a response that the store accepts is answered with,
  and stored with, the score min(100, starScore + lengthScore + 10): 25 points for each
  of the four STAR word groups that the response mentions in whatever case, and
  min(30, (wordCount div 10) * 5) for its length, where wordCount is the number of words
  of the response (1 when it has none). The score lies between 0 and 100, and a response
  that mentions all four groups in at least 150 words scores 100.
\<close>

theorem interview_score_formula:
  assumes "p \<noteq> []" "r \<noteq> []" "\<not> throws fault 0" "user_exists db (userId user)"
  shows "mock_interview fault db user (Some p) (Some r) d =
     (db\<lparr>interview_practice := interview_practice db @
           [\<lparr> ip_user_id = userId user, ip_prompt = p, ip_response = r,
              ip_duration = (case d of None \<Rightarrow> None | Some n \<Rightarrow> if n = 0 then None else Some n),
              ip_score = totalScore_of r \<rparr>]\<rparr>,
      Payload \<lparr> mi_score = totalScore_of r, mi_feedback = feedback_for r,
                mi_wordCount = wordCount_of r,
                mi_starComponents =
                  \<lparr> star_situation = hasSituation_in r, star_task = hasTask_in r,
                    star_action = hasAction_in r, star_result = hasResult_in r \<rparr> \<rparr>)
   \<and> totalScore_of r =
       min 100
         ((if mentions [''situation'', ''context'', ''background''] r then 25 else 0)
          + (if mentions [''task'', ''goal'', ''objective'', ''challenge''] r then 25 else 0)
          + (if mentions [''action'', ''did'', ''implemented'', ''executed'', ''performed''] r
             then 25 else 0)
          + (if mentions [''result'', ''outcome'', ''impact'', ''achieved'', ''accomplished''] r
             then 25 else 0)
          + min 30 (int (wordCount_of r div 10) * 5)
          + 10)
   \<and> wordCount_of r = max 1 (words_in r)
   \<and> 0 \<le> totalScore_of r \<and> totalScore_of r \<le> 100
   \<and> (mentions [''situation'', ''context'', ''background''] r
        \<and> mentions [''task'', ''goal'', ''objective'', ''challenge''] r
        \<and> mentions [''action'', ''did'', ''implemented'', ''executed'', ''performed''] r
        \<and> mentions [''result'', ''outcome'', ''impact'', ''achieved'', ''accomplished''] r
        \<and> 150 \<le> words_in r
      \<longrightarrow> totalScore_of r = 100)"
proof -
  have formula: "totalScore_of r =
       min 100
         ((if mentions [''situation'', ''context'', ''background''] r then 25 else 0)
          + (if mentions [''task'', ''goal'', ''objective'', ''challenge''] r then 25 else 0)
          + (if mentions [''action'', ''did'', ''implemented'', ''executed'', ''performed''] r
             then 25 else 0)
          + (if mentions [''result'', ''outcome'', ''impact'', ''achieved'', ''accomplished''] r
             then 25 else 0)
          + min 30 (int (wordCount_of r div 10) * 5)
          + 10)"
    unfolding totalScore_of_def starScore_of_def lengthScore_of_def
      hasSituation_mentions hasTask_mentions hasAction_mentions hasResult_mentions
    by (rule refl)
  have full: "mentions [''situation'', ''context'', ''background''] r
        \<and> mentions [''task'', ''goal'', ''objective'', ''challenge''] r
        \<and> mentions [''action'', ''did'', ''implemented'', ''executed'', ''performed''] r
        \<and> mentions [''result'', ''outcome'', ''impact'', ''achieved'', ''accomplished''] r
        \<and> 150 \<le> words_in r
      \<longrightarrow> totalScore_of r = 100"
    using totalScore_full[of r]
    unfolding hasSituation_mentions hasTask_mentions hasAction_mentions hasResult_mentions
    by blast
  from totalScore_range[of r] have lo: "0 \<le> totalScore_of r" and hi: "totalScore_of r \<le> 100"
    by simp_all
  show ?thesis
    by (intro conjI;
        (rule mock_interview_accepted[OF assms] formula wordCount_words lo hi full))
qed

theorem interview_score_formula_witness:
  "user_exists example_store (userId example_seeker)
   \<and> mentions [''situation'', ''context'', ''background''] example_response
   \<and> mentions [''task'', ''goal'', ''objective'', ''challenge''] example_response
   \<and> mentions [''action'', ''did'', ''implemented'', ''executed'', ''performed''] example_response
   \<and> mentions [''result'', ''outcome'', ''impact'', ''achieved'', ''accomplished''] example_response
   \<and> words_in example_response = 150
   \<and> mock_interview None example_store example_seeker (Some ''Tell me about a challenge'')
        (Some example_response) (Some 120) =
      (example_store\<lparr>interview_practice := interview_practice example_store @
           [\<lparr> ip_user_id = userId example_seeker, ip_prompt = ''Tell me about a challenge'',
              ip_response = example_response, ip_duration = Some 120, ip_score = 100 \<rparr>]\<rparr>,
       Payload \<lparr> mi_score = 100, mi_feedback = feedback_for example_response,
                 mi_wordCount = 150,
                 mi_starComponents =
                   \<lparr> star_situation = True, star_task = True,
                     star_action = True, star_result = True \<rparr> \<rparr>)"
proof -
  have u: "user_exists example_store (userId example_seeker)" by code_simp
  have ne: "example_response \<noteq> []" by code_simp
  have f: "\<not> throws None 0" by (simp add: throws_def)
  have m: "mentions [''situation'', ''context'', ''background''] example_response"
    "mentions [''task'', ''goal'', ''objective'', ''challenge''] example_response"
    "mentions [''action'', ''did'', ''implemented'', ''executed'', ''performed''] example_response"
    "mentions [''result'', ''outcome'', ''impact'', ''achieved'', ''accomplished''] example_response"
    by code_simp+
  have w: "wordCount_of example_response = 150" by code_simp
  have n: "words_in example_response = 150" by code_simp
  have p: "''Tell me about a challenge'' \<noteq> []" by simp
  from interview_score_formula[OF p ne f u, of "Some 120"] m w n
  have "mock_interview None example_store example_seeker (Some ''Tell me about a challenge'')
        (Some example_response) (Some 120) =
      (example_store\<lparr>interview_practice := interview_practice example_store @
           [\<lparr> ip_user_id = userId example_seeker, ip_prompt = ''Tell me about a challenge'',
              ip_response = example_response, ip_duration = Some 120, ip_score = 100 \<rparr>]\<rparr>,
       Payload \<lparr> mi_score = 100, mi_feedback = feedback_for example_response,
                 mi_wordCount = 150,
                 mi_starComponents =
                   \<lparr> star_situation = True, star_task = True,
                     star_action = True, star_result = True \<rparr> \<rparr>)"
    by (simp add: hasSituation_mentions hasTask_mentions hasAction_mentions hasResult_mentions)
  with u m n show ?thesis by simp
qed

text \<open>
  C7. A submission whose prompt or response is missing or empty is answered with the 400
  reply, whatever the store would do, and the store is left as it was: no
  \<open>interview_practice\<close> row is created.
\<close>

theorem interview_validation:
  assumes "prompt = None \<or> prompt = Some [] \<or> response = None \<or> response = Some []"
  shows "mock_interview fault db user prompt response duration =
           (db, Msg 400 False ''Prompt and response are required'')"
  using assms by (auto simp: mock_interview_def split: option.splits)

theorem interview_validation_witness:
  "mock_interview None example_store example_seeker (Some ''Tell me about a challenge'')
     (Some []) (Some 120) =
     (example_store, Msg 400 False ''Prompt and response are required'')
   \<and> mock_interview None example_store example_seeker None
     (Some example_response) (Some 120) =
     (example_store, Msg 400 False ''Prompt and response are required'')"
proof -
  have a: "Some ''Tell me about a challenge'' = None \<or> Some ''Tell me about a challenge'' = Some []
      \<or> Some ([]::string) = None \<or> Some ([]::string) = Some []"
    by simp
  have b: "(None::string option) = None \<or> (None::string option) = Some []
      \<or> Some example_response = None \<or> Some example_response = Some []"
    by simp
  from interview_validation[OF a] interview_validation[OF b] show ?thesis by simp
qed

text \<open>
  C10. A response that is not empty and consists of white space only (a single space, for
  example) passes the check of the required fields; it has no word, its word count is 1,
  and a row with the score 10 is stored.
\<close>

theorem whitespace_response_stored:
  assumes "r \<noteq> []" "list_all isWhiteSpace r"
    and "p \<noteq> []" "\<not> throws fault 0" "user_exists db (userId user)"
  shows "words_in r = 0 \<and> mock_interview fault db user (Some p) (Some r) d =
     (db\<lparr>interview_practice := interview_practice db @
           [\<lparr> ip_user_id = userId user, ip_prompt = p, ip_response = r,
              ip_duration = (case d of None \<Rightarrow> None | Some n \<Rightarrow> if n = 0 then None else Some n),
              ip_score = 10 \<rparr>]\<rparr>,
      Payload \<lparr> mi_score = 10,
                mi_feedback =
                  [''Add context: Describe the situation or background'',
                   ''Clarify the task: What was your goal or challenge?'',
                   ''Detail your action: What specific steps did you take?'',
                   ''Share the result: What was the outcome or impact?'',
                   ''Expand your response with more details and specific examples''],
                mi_wordCount = 1,
                mi_starComponents =
                  \<lparr> star_situation = False, star_task = False,
                    star_action = False, star_result = False \<rparr> \<rparr>)"
  using mock_interview_accepted[OF assms(3) assms(1) assms(4) assms(5), of d]
  by (simp add: totalScore_whitespace[OF assms(2)] feedback_whitespace[OF assms(2)]
      wordCount_whitespace[OF assms(2)] star_whitespace[OF assms(2)]
      words_in_def word_starts_whitespace[OF assms(2)])

theorem whitespace_response_stored_witness:
  "'' '' \<noteq> [] \<and> list_all isWhiteSpace '' ''
   \<and> user_exists example_store (userId example_seeker)
   \<and> words_in '' '' = 0
   \<and> mock_interview None example_store example_seeker (Some ''Tell me about a challenge'')
        (Some '' '') None =
      (example_store\<lparr>interview_practice := interview_practice example_store @
           [\<lparr> ip_user_id = userId example_seeker, ip_prompt = ''Tell me about a challenge'',
              ip_response = '' '', ip_duration = None, ip_score = 10 \<rparr>]\<rparr>,
       Payload \<lparr> mi_score = 10,
                 mi_feedback =
                   [''Add context: Describe the situation or background'',
                    ''Clarify the task: What was your goal or challenge?'',
                    ''Detail your action: What specific steps did you take?'',
                    ''Share the result: What was the outcome or impact?'',
                    ''Expand your response with more details and specific examples''],
                 mi_wordCount = 1,
                 mi_starComponents =
                   \<lparr> star_situation = False, star_task = False,
                     star_action = False, star_result = False \<rparr> \<rparr>)"
proof -
  have ne: "'' '' \<noteq> []" by simp
  have ws: "list_all isWhiteSpace '' ''" by code_simp
  have u: "user_exists example_store (userId example_seeker)" by code_simp
  have f: "\<not> throws None 0" by (simp add: throws_def)
  have p: "''Tell me about a challenge'' \<noteq> []" by simp
  from whitespace_response_stored[OF ne ws p f u, of None] ne ws u show ?thesis by simp
qed

section \<open>Career statistics\<close>

lemma weights_le_100:
  "interviewWeight_of c + scoreWeight_of a + activityWeight_of t \<le> 100"
  unfolding interviewWeight_of_def scoreWeight_of_def activityWeight_of_def
  by (simp add: min_def)

lemma pulse_le_100: "confidencePulse_of c a t \<le> 100"
proof -
  have "interviewWeight_of c + scoreWeight_of a + activityWeight_of t + 1 / 2 < 101"
    using weights_le_100[of c a t] by simp
  then show ?thesis
    unfolding confidencePulse_of_def Math_round_def by (simp add: floor_less_iff)
qed

lemma pulse_zero: "confidencePulse_of 0 0 0 = 0"
  unfolding confidencePulse_of_def Math_round_def interviewWeight_of_def scoreWeight_of_def
    activityWeight_of_def
  by (simp add: floor_eq_iff)

lemma pulse_100_iff:
  "confidencePulse_of c a t = 100 \<longleftrightarrow>
     199 / 2 \<le> interviewWeight_of c + scoreWeight_of a + activityWeight_of t"
  using weights_le_100[of c a t]
  unfolding confidencePulse_of_def Math_round_def floor_eq_iff by auto

lemma pulse_caps:
  assumes "interviewWeight_of c = 40" "scoreWeight_of a = 30" "activityWeight_of t = 30"
  shows "confidencePulse_of c a t = 100"
  using assms by (simp add: pulse_100_iff)

lemma career_stats_ok:
  "career_stats None (c, avg) (t, acc, sh) =
     Payload \<lparr> confidencePulse = confidencePulse_of c (or_zero avg) t,
               interviewPracticeCount = c,
               averageInterviewScore = Math_round (or_zero avg),
               totalApplications = t,
               acceptedApplications = or_zero acc,
               shortlistedApplications = or_zero sh \<rparr>"
  by (simp add: career_stats_def throws_def Let_def)

text \<open>
  C3, as the code has it. The confidence pulse is
  round(min(40, interviewCount * 8) + min(30, avgScore * 0.3) + min(30, totalApps * 3)).
  It is 0 for a user without interview practice and without applications, at most 100
  for all inputs, and 100 exactly when the sum of the three weights is at least 99.5: in
  particular when all three caps are reached (5 interviews averaging 100 and 10
  applications).
\<close>

theorem confidence_pulse_rounded:
  "career_stats None (interviewCount, avg) (totalApps, acc, sh) =
     Payload \<lparr> confidencePulse = confidencePulse_of interviewCount (or_zero avg) totalApps,
               interviewPracticeCount = interviewCount,
               averageInterviewScore = Math_round (or_zero avg),
               totalApplications = totalApps,
               acceptedApplications = or_zero acc,
               shortlistedApplications = or_zero sh \<rparr>
   \<and> confidencePulse_of interviewCount avgScore totalApps =
       \<lfloor>min 40 (of_nat interviewCount * 8) + min 30 (avgScore * 0.3)
          + min 30 (of_nat totalApps * 3) + 1 / 2\<rfloor>
   \<and> confidencePulse_of 0 (or_zero None) 0 = 0
   \<and> confidencePulse_of interviewCount avgScore totalApps \<le> 100
   \<and> (confidencePulse_of interviewCount avgScore totalApps = 100 \<longleftrightarrow>
        199 / 2 \<le> min 40 (of_nat interviewCount * 8) + min 30 (avgScore * 0.3)
                    + min 30 (of_nat totalApps * 3))
   \<and> (min 40 (of_nat interviewCount * 8) = (40::rat) \<and> min 30 (avgScore * 0.3) = 30
        \<and> min 30 (of_nat totalApps * 3) = (30::rat)
      \<longrightarrow> confidencePulse_of interviewCount avgScore totalApps = 100)
   \<and> confidencePulse_of 5 100 10 = 100"
proof -
  have formula: "confidencePulse_of interviewCount avgScore totalApps =
       \<lfloor>min 40 (of_nat interviewCount * 8) + min 30 (avgScore * 0.3)
          + min 30 (of_nat totalApps * 3) + 1 / 2\<rfloor>"
    by (simp add: confidencePulse_of_def Math_round_def interviewWeight_of_def
        scoreWeight_of_def activityWeight_of_def)
  have zero: "confidencePulse_of 0 (or_zero None) 0 = 0"
    by (simp add: or_zero_def pulse_zero)
  have iff: "confidencePulse_of interviewCount avgScore totalApps = 100 \<longleftrightarrow>
        199 / 2 \<le> min 40 (of_nat interviewCount * 8) + min 30 (avgScore * 0.3)
                    + min 30 (of_nat totalApps * 3)"
    using pulse_100_iff[of interviewCount avgScore totalApps]
    by (simp add: interviewWeight_of_def scoreWeight_of_def activityWeight_of_def)
  have caps: "min 40 (of_nat interviewCount * 8) = (40::rat) \<and> min 30 (avgScore * 0.3) = 30
        \<and> min 30 (of_nat totalApps * 3) = (30::rat)
      \<longrightarrow> confidencePulse_of interviewCount avgScore totalApps = 100"
    using pulse_caps[of interviewCount avgScore totalApps]
    by (simp add: interviewWeight_of_def scoreWeight_of_def activityWeight_of_def)
  have ex: "confidencePulse_of 5 100 10 = 100"
    by (rule pulse_caps)
       (simp_all add: interviewWeight_of_def scoreWeight_of_def activityWeight_of_def)
  from career_stats_ok[of interviewCount avg totalApps acc sh] formula zero
    pulse_le_100[of interviewCount avgScore totalApps] iff caps ex
  show ?thesis by (intro conjI) simp_all
qed

theorem confidence_pulse_rounded_witness:
  "min 40 (of_nat 7 * 8) = (40::rat) \<and> min 30 (100 * 0.3) = (30::rat)
   \<and> min 30 (of_nat 12 * 3) = (30::rat)
   \<and> confidencePulse_of 7 100 12 = 100
   \<and> career_stats None (7, Some 100) (12, Some 2, None) =
       Payload \<lparr> confidencePulse = 100, interviewPracticeCount = 7,
                 averageInterviewScore = 100, totalApplications = 12,
                 acceptedApplications = 2, shortlistedApplications = 0 \<rparr>"
proof -
  have c: "min 40 (of_nat 7 * 8) = (40::rat)" "min 30 (100 * 0.3) = (30::rat)"
    "min 30 (of_nat 12 * 3) = (30::rat)"
    by simp_all
  have r: "Math_round 100 = 100" by (simp add: Math_round_def floor_eq_iff)
  from confidence_pulse_rounded[of 7 "Some 100" 12 "Some 2" None 100] c r
  show ?thesis by (simp add: or_zero_def)
qed

text \<open>
  The claim of C3 that the pulse is 100 only when all three caps are reached fails: five
  interviews averaging 99 and ten applications give the weights 40, 29.7 and 30, whose
  sum 99.7 is rounded to 100.
\<close>

theorem confidence_pulse_counterexample:
  "career_stats None (5, Some 99) (10, None, None) =
     Payload \<lparr> confidencePulse = 100, interviewPracticeCount = 5,
               averageInterviewScore = 99, totalApplications = 10,
               acceptedApplications = 0, shortlistedApplications = 0 \<rparr>
   \<and> scoreWeight_of 99 = 297 / 10 \<and> scoreWeight_of 99 < 30"
proof -
  have s: "scoreWeight_of 99 = 297 / 10"
    by (simp add: scoreWeight_of_def)
  have p: "confidencePulse_of 5 99 10 = 100"
    unfolding pulse_100_iff s by (simp add: interviewWeight_of_def activityWeight_of_def)
  have r: "Math_round 99 = 99" by (simp add: Math_round_def floor_eq_iff)
  from s p r show ?thesis by (simp add: career_stats_ok or_zero_def)
qed

section \<open>Applications\<close>

lemma find_map_keep:
  "(\<And>x. P (g x) = P x) \<Longrightarrow> find P (map g xs) = map_option g (find P xs)"
  by (induction xs) auto

lemma find_holds: "find P xs = Some x \<Longrightarrow> P x"
  by (induction xs) (auto split: if_splits)

lemma filter_of_find:
  "find P xs = Some x \<Longrightarrow> \<exists>rest. filter P xs = x # rest"
  by (induction xs) (auto split: if_splits)

lemma concat_find:
  "find P xs = Some x \<Longrightarrow>
   \<exists>rest. concat (map (\<lambda>y. if P y then f y else []) xs) = f x @ rest"
  by (induction xs) (auto split: if_splits)

lemma count_increment:
  "applications_count_of (increment_applications_count db (Some jid)) jid' =
     map_option (\<lambda>c. if jid' = jid then c + 1 else c) (applications_count_of db jid')"
proof -
  let ?g = "\<lambda>j. if Some (j_job_id j) = Some jid
                then j\<lparr>applications_count := applications_count j + 1\<rparr> else j"
  have "job_by_id (increment_applications_count db (Some jid)) jid' =
          map_option ?g (job_by_id db jid')"
    unfolding job_by_id_def increment_applications_count_def
    by (simp add: find_map_keep)
  moreover have "job_by_id db jid' = Some j \<Longrightarrow> j_job_id j = jid'" for j
    unfolding job_by_id_def by (rule find_holds)
  ultimately show ?thesis
    unfolding applications_count_of_def
    by (cases "job_by_id db jid'") auto
qed

lemma count_decrement:
  "applications_count_of (decrement_applications_count db jid) jid' =
     map_option (\<lambda>c. if jid' = jid then max (c - 1) 0 else c) (applications_count_of db jid')"
proof -
  let ?g = "\<lambda>j. if j_job_id j = jid
                then j\<lparr>applications_count := max (applications_count j - 1) 0\<rparr> else j"
  have "job_by_id (decrement_applications_count db jid) jid' =
          map_option ?g (job_by_id db jid')"
    unfolding job_by_id_def decrement_applications_count_def
    by (simp add: find_map_keep)
  moreover have "job_by_id db jid' = Some j \<Longrightarrow> j_job_id j = jid'" for j
    unfolding job_by_id_def by (rule find_holds)
  ultimately show ?thesis
    unfolding applications_count_of_def
    by (cases "job_by_id db jid'") auto
qed

lemma count_delete:
  "applications_count_of (delete_application db aid) jid = applications_count_of db jid"
  by (simp add: delete_application_def applications_count_of_def job_by_id_def)

lemma insert_application_ok:
  assumes "job_exists db jid" "user_exists db uid" "applications_of db jid uid = []"
  shows "insert_application db (Some jid) uid res cl =
           Some (db\<lparr>applications := applications db @
                           [\<lparr>application_id = next_application_id db, a_job_id = jid,
                             a_user_id = uid, a_resume = res,
                             a_cover_letter = cl, a_status = ''pending''\<rparr>],
                         next_application_id := Suc (next_application_id db)\<rparr>)"
  using assms
  by (auto simp: insert_application_def applications_of_def list_ex_iff filter_empty_conv)

lemma apply_job_first:
  assumes "job_exists db jid" "user_exists db (userId user)"
    and "applications_of db jid (userId user) = []"
  shows "apply_job None db user (Some jid) file cl =
     (increment_applications_count
        (db\<lparr>applications := applications db @
                [\<lparr>application_id = next_application_id db, a_job_id = jid,
                  a_user_id = userId user, a_resume = resumePath_for db user file,
                  a_cover_letter = cl, a_status = ''pending''\<rparr>],
              next_application_id := Suc (next_application_id db)\<rparr>) (Some jid),
      Msg 201 True ''Application submitted successfully'')"
proof -
  have e: "filter (\<lambda>a. a_job_id a = jid \<and> a_user_id a = userId user) (applications db) = []"
    using assms(3) by (simp add: applications_of_def)
  show ?thesis
    unfolding apply_job_def Let_def throws_def
    by (simp add: e insert_application_ok[OF assms])
qed

lemma apply_job_again:
  assumes "applications_of db jid (userId user) \<noteq> []" "\<not> throws fault 0"
  shows "apply_job fault db user (Some jid) file cl =
           (db, Msg 400 False ''Already applied to this job'')"
  using assms unfolding apply_job_def Let_def applications_of_def by simp

lemma applications_of_after_first:
  assumes "applications_of db jid uid = []"
  shows "applications_of
     (increment_applications_count
        (db\<lparr>applications := applications db @
                [\<lparr>application_id = n, a_job_id = jid, a_user_id = uid, a_resume = res,
                  a_cover_letter = cl, a_status = st\<rparr>],
              next_application_id := m\<rparr>) (Some jid)) jid uid =
     [\<lparr>application_id = n, a_job_id = jid, a_user_id = uid, a_resume = res,
       a_cover_letter = cl, a_status = st\<rparr>]"
  using assms by (simp add: applications_of_def increment_applications_count_def)

lemma count_after_first:
  "applications_count_of
     (increment_applications_count
        (db\<lparr>applications := apps, next_application_id := m\<rparr>) (Some jid)) jid =
   map_option (\<lambda>c. c + 1) (applications_count_of db jid)"
proof -
  have "applications_count_of (db\<lparr>applications := apps, next_application_id := m\<rparr>) jid
          = applications_count_of db jid"
    by (simp add: applications_count_of_def job_by_id_def)
  then show ?thesis by (simp add: count_increment)
qed

text \<open>
  C4. When a user who has not applied to an existing job applies to it twice in a row,
  the first call is answered 201 and the second 400 "Already applied to this job"; the
  second call leaves the store as the first left it, with one application row of the user
  for the job and the job's stored counter one above its value before the two calls.
\<close>

theorem apply_twice:
  assumes "job_exists db jid" "user_exists db (userId user)"
    and "applications_of db jid (userId user) = []"
    and "applications_count_of db jid = Some c"
    and "\<not> throws fault2 0"
    and "apply_job None db user (Some jid) file cl = (db1, reply1)"
    and "apply_job fault2 db1 user (Some jid) file2 cl2 = (db2, reply2)"
  shows "reply1 = Msg 201 True ''Application submitted successfully''
     \<and> reply2 = Msg 400 False ''Already applied to this job''
     \<and> db2 = db1
     \<and> length (applications_of db2 jid (userId user)) = 1
     \<and> applications_count_of db2 jid = Some (c + 1)"
proof -
  let ?row = "\<lparr>application_id = next_application_id db, a_job_id = jid,
                  a_user_id = userId user, a_resume = resumePath_for db user file,
                  a_cover_letter = cl, a_status = ''pending''\<rparr>"
  from apply_job_first[OF assms(1-3)] assms(6)
  have db1: "db1 = increment_applications_count
        (db\<lparr>applications := applications db @ [?row],
              next_application_id := Suc (next_application_id db)\<rparr>) (Some jid)"
    and r1: "reply1 = Msg 201 True ''Application submitted successfully''"
    by simp_all
  have apps1: "applications_of db1 jid (userId user) = [?row]"
    unfolding db1 by (rule applications_of_after_first[OF assms(3)])
  have cnt1: "applications_count_of db1 jid = Some (c + 1)"
    unfolding db1 count_after_first assms(4) by simp
  from apps1 have "applications_of db1 jid (userId user) \<noteq> []" by simp
  from apply_job_again[OF this assms(5)] assms(7)
  have "db2 = db1" and r2: "reply2 = Msg 400 False ''Already applied to this job''"
    by simp_all
  with r1 apps1 cnt1 show ?thesis by simp
qed

theorem apply_twice_witness:
  "job_exists example_store 10 \<and> user_exists example_store (userId example_seeker)
   \<and> applications_of example_store 10 (userId example_seeker) = []
   \<and> applications_count_of example_store 10 = Some 0
   \<and> apply_job None example_store example_seeker (Some 10) None (Some ''Dear team'') =
       (example_store_after_apply, Msg 201 True ''Application submitted successfully'')
   \<and> apply_job None example_store_after_apply example_seeker (Some 10) None (Some ''Dear team'') =
       (example_store_after_apply, Msg 400 False ''Already applied to this job'')
   \<and> length (applications_of example_store_after_apply 10 (userId example_seeker)) = 1
   \<and> applications_count_of example_store_after_apply 10 = Some 1"
proof -
  have j: "job_exists example_store 10" by code_simp
  have u: "user_exists example_store (userId example_seeker)" by code_simp
  have a: "applications_of example_store 10 (userId example_seeker) = []" by code_simp
  have c: "applications_count_of example_store 10 = Some 0" by code_simp
  have f: "\<not> throws None 0" by (simp add: throws_def)
  have one: "apply_job None example_store example_seeker (Some 10) None (Some ''Dear team'') =
       (example_store_after_apply, Msg 201 True ''Application submitted successfully'')"
    by code_simp
  define second where
    "second = apply_job None example_store_after_apply example_seeker (Some 10) None
       (Some ''Dear team'')"
  have two: "apply_job None example_store_after_apply example_seeker (Some 10) None
       (Some ''Dear team'') = (fst second, snd second)"
    by (simp add: second_def)
  note t = apply_twice[OF j u a c f one two]
  from t have e: "fst second = example_store_after_apply"
    and r: "snd second = Msg 400 False ''Already applied to this job''"
    by simp_all
  from t have l: "length (applications_of example_store_after_apply 10 (userId example_seeker)) = 1"
    and n: "applications_count_of example_store_after_apply 10 = Some 1"
    by (elim conjE, simp)+
  from e r have again: "apply_job None example_store_after_apply example_seeker (Some 10) None
       (Some ''Dear team'') =
       (example_store_after_apply, Msg 400 False ''Already applied to this job'')"
    unfolding second_def by (simp add: prod_eq_iff)
  from j u a c one again l n show ?thesis by (intro conjI)
qed

lemma role_gate_all: "authorizeRoles [Job_seeker, Student, Alumni, Job_poster, Admin] user"
  by (cases "role user") (simp_all add: authorizeRoles_def)

lemma withdraw_ok:
  assumes "application_by_id db aid = Some a"
    and "a_user_id a = userId user \<or> role user = Admin"
  shows "withdraw_application None db user aid =
     (decrement_applications_count (delete_application db aid) (a_job_id a),
      Msg 200 True ''Application withdrawn successfully'')"
proof -
  from assms(1) obtain rest where
    "filter (\<lambda>a. application_id a = aid) (applications db) = a # rest"
    unfolding application_by_id_def by (blast dest: filter_of_find)
  then show ?thesis
    using assms(2) role_gate_all[of user]
    by (auto simp: withdraw_application_def Let_def throws_def)
qed

lemma applications_after_withdraw:
  "applications (decrement_applications_count (delete_application db aid) jid) =
     filter (\<lambda>a. application_id a \<noteq> aid) (applications db)"
  by (simp add: decrement_applications_count_def delete_application_def)

text \<open>
  C5. Withdrawing an existing application, by its owner or by an admin, deletes the row
  and sets the stored counter of its job to max(counter - 1, 0): one less when the counter
  is at least 1, and 0 when it is 0. The counters of the other jobs stay.
\<close>

theorem withdraw_decrements:
  assumes "application_by_id db aid = Some a"
    and "a_user_id a = userId user \<or> role user = Admin"
    and "applications_count_of db (a_job_id a) = Some c"
    and "withdraw_application None db user aid = (db', reply)"
  shows "reply = Msg 200 True ''Application withdrawn successfully''
     \<and> applications db' = filter (\<lambda>x. application_id x \<noteq> aid) (applications db)
     \<and> application_by_id db' aid = None
     \<and> applications_count_of db' (a_job_id a) = Some (max (c - 1) 0)
     \<and> (1 \<le> c \<longrightarrow> applications_count_of db' (a_job_id a) = Some (c - 1))
     \<and> (c = 0 \<longrightarrow> applications_count_of db' (a_job_id a) = Some 0)
     \<and> (\<forall>jid. jid \<noteq> a_job_id a \<longrightarrow>
           applications_count_of db' jid = applications_count_of db jid)"
proof -
  from withdraw_ok[OF assms(1,2)] assms(4)
  have db': "db' = decrement_applications_count (delete_application db aid) (a_job_id a)"
    and r: "reply = Msg 200 True ''Application withdrawn successfully''"
    by simp_all
  have apps: "applications db' = filter (\<lambda>x. application_id x \<noteq> aid) (applications db)"
    unfolding db' by (rule applications_after_withdraw)
  have gone: "application_by_id db' aid = None"
    unfolding application_by_id_def apps by (simp add: find_None_iff)
  have cnt: "applications_count_of db' jid =
      map_option (\<lambda>c. if jid = a_job_id a then max (c - 1) 0 else c)
        (applications_count_of db jid)" for jid
    unfolding db' count_decrement count_delete ..
  have same: "applications_count_of db' (a_job_id a) = Some (max (c - 1) 0)"
    using cnt[of "a_job_id a"] assms(3) by simp
  have other: "jid \<noteq> a_job_id a \<Longrightarrow>
      applications_count_of db' jid = applications_count_of db jid" for jid
    using cnt[of jid] by (cases "applications_count_of db jid") simp_all
  from r apps gone same other show ?thesis by auto
qed

theorem withdraw_decrements_witness:
  "application_by_id example_store_applied 1 = Some example_application
   \<and> a_user_id example_application = userId example_seeker
   \<and> applications_count_of example_store_applied 10 = Some 1
   \<and> applications_count_of example_store_drifted 10 = Some 0
   \<and> snd (withdraw_application None example_store_applied example_seeker 1) =
       Msg 200 True ''Application withdrawn successfully''
   \<and> application_by_id (fst (withdraw_application None example_store_applied example_seeker 1)) 1
       = None
   \<and> applications_count_of
        (fst (withdraw_application None example_store_applied example_seeker 1)) 10 = Some 0
   \<and> applications_count_of
        (fst (withdraw_application None example_store_drifted example_seeker 1)) 10 = Some 0"
proof -
  have a1: "application_by_id example_store_applied 1 = Some example_application" by code_simp
  have a2: "application_by_id example_store_drifted 1 = Some example_application" by code_simp
  have o: "a_user_id example_application = userId example_seeker" by code_simp
  then have o': "a_user_id example_application = userId example_seeker
      \<or> role example_seeker = Admin" by simp
  have j: "a_job_id example_application = 10" by code_simp
  have c1: "applications_count_of example_store_applied (a_job_id example_application) = Some 1"
    by code_simp
  have c2: "applications_count_of example_store_drifted (a_job_id example_application) = Some 0"
    by code_simp
  have w1: "withdraw_application None example_store_applied example_seeker 1 =
      (fst (withdraw_application None example_store_applied example_seeker 1),
       snd (withdraw_application None example_store_applied example_seeker 1))"
    by simp
  have w2: "withdraw_application None example_store_drifted example_seeker 1 =
      (fst (withdraw_application None example_store_drifted example_seeker 1),
       snd (withdraw_application None example_store_drifted example_seeker 1))"
    by simp
  from withdraw_decrements[OF a1 o' c1 w1] withdraw_decrements[OF a2 o' c2 w2] a1 o c1 c2 j
  show ?thesis by simp
qed

lemma join_head:
  assumes "application_by_id db aid = Some a"
    and "job_by_id db (a_job_id a) = Some j"
    and "user_by_id db (a_user_id a) = Some u"
  shows "\<exists>rest. [(a, j, u). a \<leftarrow> applications db, application_id a = aid,
                               j \<leftarrow> jobs db, j_job_id j = a_job_id a,
                               u \<leftarrow> users db, u_user_id u = a_user_id a] = (a, j, u) # rest"
proof -
  let ?fu = "\<lambda>a j. concat (map (\<lambda>u. if u_user_id u = a_user_id a then [(a, j, u)] else [])
                               (users db))"
  let ?fj = "\<lambda>a. concat (map (\<lambda>j. if j_job_id j = a_job_id a then ?fu a j else []) (jobs db))"
  from assms(3) obtain r1 where 1: "?fu a j = [(a, j, u)] @ r1"
    unfolding user_by_id_def
    using concat_find[of "\<lambda>u. u_user_id u = a_user_id a" "users db" u "\<lambda>u. [(a, j, u)]"]
    by blast
  from assms(2) obtain r2 where 2: "?fj a = ?fu a j @ r2"
    unfolding job_by_id_def
    using concat_find[of "\<lambda>j. j_job_id j = a_job_id a" "jobs db" j "?fu a"] by blast
  from assms(1) obtain r3 where
    3: "concat (map (\<lambda>a. if application_id a = aid then ?fj a else []) (applications db))
          = ?fj a @ r3"
    unfolding application_by_id_def
    using concat_find[of "\<lambda>a. application_id a = aid" "applications db" a ?fj] by blast
  show ?thesis unfolding 3 2 1 by simp
qed

lemma update_status_invalid:
  assumes "authorizeRoles [Job_poster, Alumni, Admin] user"
  shows "snd (update_status fault db user aid status) = Msg 400 False ''Invalid status''
         \<longleftrightarrow> (case status of None \<Rightarrow> True | Some st \<Rightarrow> st \<notin> set valid_statuses)"
  using assms
  by (auto simp: update_status_def Let_def split: option.splits list.splits)

lemma update_status_invalid_unchanged:
  assumes "case status of None \<Rightarrow> True | Some st \<Rightarrow> st \<notin> set valid_statuses"
  shows "fst (update_status fault db user aid status) = db"
  using assms
  by (auto simp: update_status_def Let_def split: option.splits list.splits)

lemma update_status_ok:
  assumes "authorizeRoles [Job_poster, Alumni, Admin] user"
    and "st \<in> set valid_statuses"
    and "application_by_id db aid = Some a"
    and "job_by_id db (a_job_id a) = Some j"
    and "user_by_id db (a_user_id a) = Some u"
    and "j_user_id j = userId user \<or> role user = Admin"
  shows "update_status None db user aid (Some st) =
     (update_application_status db st aid, Msg 200 True ''Application status updated'')"
proof -
  from join_head[OF assms(3-5)] obtain rest where
    "[(a, j, u). a \<leftarrow> applications db, application_id a = aid,
                  j \<leftarrow> jobs db, j_job_id j = a_job_id a,
                  u \<leftarrow> users db, u_user_id u = a_user_id a] = (a, j, u) # rest"
    by blast
  then show ?thesis
    using assms(1,2,6)
    by (auto simp: update_status_def Let_def throws_def)
qed

lemma status_after_update:
  "application_by_id (update_application_status db st aid) aid =
     map_option (\<lambda>a. a\<lparr>a_status := st\<rparr>) (application_by_id db aid)"
proof -
  have "find (\<lambda>a. application_id a = aid)
          (map (\<lambda>a. if application_id a = aid then a\<lparr>a_status := st\<rparr> else a) (applications db))
        = map_option (\<lambda>a. if application_id a = aid then a\<lparr>a_status := st\<rparr> else a)
            (find (\<lambda>a. application_id a = aid) (applications db))"
    by (rule find_map_keep) simp
  then show ?thesis
    unfolding application_by_id_def update_application_status_def
    by (cases "find (\<lambda>a. application_id a = aid) (applications db)")
       (auto dest: find_holds)
qed

lemma status_option_cases:
  "(case status of None \<Rightarrow> True | Some st \<Rightarrow> st \<notin> set valid_statuses) \<longleftrightarrow>
     status \<notin> Some ` {''pending'', ''reviewed'', ''shortlisted'', ''rejected'', ''accepted''}"
  by (cases status) (auto simp: valid_statuses_def)

text \<open>
  C8. For a caller that passes the role gate, the status update answers 400
  "Invalid status" exactly when the status is not one of pending, reviewed, shortlisted,
  rejected and accepted, and then changes nothing. When the job's poster or an admin sends
  one of the five for an existing application, the application gets that status whatever
  its status was: no order of the statuses is enforced.
\<close>

theorem status_update_unordered:
  assumes "authorizeRoles [Job_poster, Alumni, Admin] user"
  shows "(snd (update_status fault db user aid status) = Msg 400 False ''Invalid status''
          \<longleftrightarrow> status \<notin> Some ` {''pending'', ''reviewed'', ''shortlisted'', ''rejected'',
                                 ''accepted''})
     \<and> (status \<notin> Some ` {''pending'', ''reviewed'', ''shortlisted'', ''rejected'', ''accepted''}
        \<longrightarrow> fst (update_status fault db user aid status) = db)
     \<and> (\<forall>st a j u.
           st \<in> {''pending'', ''reviewed'', ''shortlisted'', ''rejected'', ''accepted''}
           \<and> application_by_id db aid = Some a
           \<and> job_by_id db (a_job_id a) = Some j
           \<and> user_by_id db (a_user_id a) = Some u
           \<and> (j_user_id j = userId user \<or> role user = Admin)
         \<longrightarrow> update_status None db user aid (Some st) =
               (update_application_status db st aid, Msg 200 True ''Application status updated'')
             \<and> application_by_id (update_application_status db st aid) aid =
                 Some (a\<lparr>a_status := st\<rparr>))"
proof -
  have 1: "snd (update_status fault db user aid status) = Msg 400 False ''Invalid status''
          \<longleftrightarrow> status \<notin> Some ` {''pending'', ''reviewed'', ''shortlisted'', ''rejected'',
                                 ''accepted''}"
    unfolding update_status_invalid[OF assms] status_option_cases ..
  have 2: "status \<notin> Some ` {''pending'', ''reviewed'', ''shortlisted'', ''rejected'', ''accepted''}
        \<longrightarrow> fst (update_status fault db user aid status) = db"
    using update_status_invalid_unchanged[of status fault db user aid]
    unfolding status_option_cases by blast
  have 3: "update_status None db user aid (Some st) =
               (update_application_status db st aid, Msg 200 True ''Application status updated'')
             \<and> application_by_id (update_application_status db st aid) aid =
                 Some (a\<lparr>a_status := st\<rparr>)"
    if "st \<in> {''pending'', ''reviewed'', ''shortlisted'', ''rejected'', ''accepted''}"
      and "application_by_id db aid = Some a"
      and "job_by_id db (a_job_id a) = Some j"
      and "user_by_id db (a_user_id a) = Some u"
      and "j_user_id j = userId user \<or> role user = Admin"
    for st a j u
  proof -
    from that(1) have v: "st \<in> set valid_statuses" by (simp add: valid_statuses_def)
    from update_status_ok[OF assms v that(2-5)] status_after_update[of db st aid] that(2)
    show ?thesis by simp
  qed
  from 1 2 3 show ?thesis by blast
qed

theorem status_update_unordered_witness:
  "authorizeRoles [Job_poster, Alumni, Admin] example_poster
   \<and> a_status example_application = ''accepted''
   \<and> application_by_id example_store_applied 1 = Some example_application
   \<and> update_status None example_store_applied example_poster 1 (Some ''hired'') =
       (example_store_applied, Msg 400 False ''Invalid status'')
   \<and> update_status None example_store_applied example_poster 1 (Some ''pending'') =
       (update_application_status example_store_applied ''pending'' 1,
        Msg 200 True ''Application status updated'')
   \<and> application_by_id (update_application_status example_store_applied ''pending'' 1) 1 =
       Some (example_application\<lparr>a_status := ''pending''\<rparr>)"
proof -
  have g: "authorizeRoles [Job_poster, Alumni, Admin] example_poster" by code_simp
  have s: "a_status example_application = ''accepted''" by code_simp
  have a: "application_by_id example_store_applied 1 = Some example_application" by code_simp
  have j: "job_by_id example_store_applied (a_job_id example_application) =
      Some \<lparr>j_job_id = 10, j_user_id = 1, j_title = ''Engineer'', j_company = ''Acme'',
            applications_count = 1\<rparr>"
    by code_simp
  have u: "user_by_id example_store_applied (a_user_id example_application) =
      Some \<lparr>u_user_id = 2, u_name = ''Ravi'', u_email = ''ravi@example.org''\<rparr>"
    by code_simp
  have p: "j_user_id \<lparr>j_job_id = 10, j_user_id = 1, j_title = ''Engineer'', j_company = ''Acme'',
            applications_count = 1\<rparr> = userId example_poster"
    by code_simp
  have bad: "Some ''hired'' \<notin>
      Some ` {''pending'', ''reviewed'', ''shortlisted'', ''rejected'', ''accepted''}"
    by simp
  have good: "''pending'' \<in> {''pending'', ''reviewed'', ''shortlisted'', ''rejected'', ''accepted''}"
    by simp
  note t1 = status_update_unordered[OF g, of None example_store_applied 1 "Some ''hired''"]
  from t1 bad have r1: "update_status None example_store_applied example_poster 1 (Some ''hired'') =
       (example_store_applied, Msg 400 False ''Invalid status'')"
    by (simp only: prod_eq_iff fst_conv snd_conv) blast
  from t1 good a j u p
  have r2: "update_status None example_store_applied example_poster 1 (Some ''pending'') =
       (update_application_status example_store_applied ''pending'' 1,
        Msg 200 True ''Application status updated'')
     \<and> application_by_id (update_application_status example_store_applied ''pending'' 1) 1 =
       Some (example_application\<lparr>a_status := ''pending''\<rparr>)"
    by blast
  from g s a r1 r2 show ?thesis by blast
qed


end
